theory Spec2Isabelle
  imports Complex_Main "HOL-Library.AList"
begin

section \<open>Track overlays (sleap/gui/overlays/tracks.py)\<close>

subsection \<open>The labeled-frame store\<close>

text \<open>
  Modelled from the spec: the classes \<open>Track\<close>, \<open>Instance\<close>, \<open>LabeledFrame\<close>, \<open>Video\<close>
  and \<open>Labels\<close> (sleap.instance, sleap.io) are collaborators of the overlays.
  A track is an identity with a display name (\<open>track_id\<close> stands for the object identity
  that \<open>==\<close> compares); an instance belongs to one track and holds named landmark points,
  each with (x, y) and a visibility flag; a labeled frame is a video, a frame index and
  the instances detected in it; the store holds the labeled frames, the ordered
  landmarks (\<open>nodes\<close>) and the ordered tracks.
\<close>

type_synonym video = nat
type_synonym node = string

datatype track = Track (track_id: nat) (name: string)

datatype point = Point (x_coord: real) (y_coord: real) (visible: bool)

datatype sleap_instance = Instance (inst_track: track) (inst_points: "node \<rightharpoonup> point")

datatype labeled_frame =
  LabeledFrame (lf_video: video) (frame_idx: int) (instances: "sleap_instance list")

datatype labels =
  Labels (labeled_frames: "labeled_frame list") (nodes: "node list") (tracks: "track list")

text \<open>
  Modelled from the spec: \<open>Labels.find(video, frameIndexOrRange)\<close> returns the labeled
  frames of the video whose frame index is the given one or lies in the given range.
  The indices asked for are a predicate; the frames come in the store's order.
\<close>

definition find :: "labels \<Rightarrow> video \<Rightarrow> (int \<Rightarrow> bool) \<Rightarrow> labeled_frame list" where
  "find ls video idxs =
     filter (\<lambda>lf. lf_video lf = video \<and> idxs (frame_idx lf)) (labeled_frames ls)"

text \<open>Python's \<open>range(a, b)\<close> as the predicate of its members.\<close>

definition py_range :: "int \<Rightarrow> int \<Rightarrow> int \<Rightarrow> bool" where
  "py_range a b i = (a \<le> i \<and> i < b)"

text \<open>
  Python's slice \<open>xs[s:]\<close>: a negative start counts from the end and is clipped at 0,
  a start beyond the end gives the empty list.
\<close>

definition slice_from :: "int \<Rightarrow> 'a list \<Rightarrow> 'a list" where
  "slice_from s xs =
     (let n = int (length xs);
          start = (if s < 0 then max 0 (n + s) else min s n)
      in drop (nat start) xs)"

subsection \<open>The player: color manager and scene\<close>

type_synonym trail = "(real \<times> real) list"

type_synonym rgb = "int \<times> int \<times> int"

text \<open>A pen is the color it was given (RGB and the alpha set on it) when it was used.\<close>

datatype pen = Pen (pen_rgb: rgb) (pen_alpha: real)

datatype text_box =
  QtTextWithBackground (tb_html: string) (tb_text_color: string) (tb_opacity: real)
    (tb_visible: bool)

datatype scene_item = Polygon (poly_points: trail) (poly_pen: pen) | TextItem text_box

text \<open>
  The player as the overlays use it: the color manager's \<open>get_track_color\<close> and the
  scene, which is the list of the items added to it, in the order of the calls.
\<close>

record qt_video_player =
  get_track_color :: "track \<Rightarrow> rgb"
  scene :: "scene_item list"

subsection \<open>TrackTrailOverlay\<close>

record track_trail_overlay =
  tto_labels :: labels
  tto_player :: qt_video_player
  trail_length :: int
  show_flag :: bool

text \<open>The body of the loop over \<open>enumerate(self.labels.nodes)\<close> for one node.\<close>

definition node_step :: "sleap_instance \<Rightarrow> trail list \<Rightarrow> nat \<times> node \<Rightarrow> trail list" where
  "node_step inst all_trails p =
     (let node_i = fst p; node = snd p;
          pt = (case inst_points inst node of
                  Some q \<Rightarrow>
                    if visible q then Some (x_coord q, y_coord q)
                    else if length (all_trails ! node_i) \<noteq> 0 then Some (last (all_trails ! node_i))
                    else None
                | None \<Rightarrow>
                    if length (all_trails ! node_i) \<noteq> 0 then Some (last (all_trails ! node_i))
                    else None)
      in case pt of
           None \<Rightarrow> all_trails
         | Some q \<Rightarrow> all_trails[node_i := all_trails ! node_i @ [q]])"

text \<open>The body of the loop over the frames of the selection.\<close>

definition frame_step :: "labels \<Rightarrow> track \<Rightarrow> labeled_frame \<Rightarrow> trail list \<Rightarrow> trail list" where
  "frame_step ls trk frame all_trails =
     (let inst_on_track = filter (\<lambda>inst. inst_track inst = trk) (instances frame)
      in case inst_on_track of
           [] \<Rightarrow> all_trails
         | inst # _ \<Rightarrow> foldl (node_step inst) all_trails (enumerate 0 (nodes ls)))"

definition get_track_trails :: "labels \<Rightarrow> labeled_frame list \<Rightarrow> track \<Rightarrow> trail list" where
  "get_track_trails ls frame_selection trk =
     fold (frame_step ls trk) frame_selection (replicate (length (nodes ls)) [])"

definition get_frame_selection :: "track_trail_overlay \<Rightarrow> video \<Rightarrow> int \<Rightarrow> labeled_frame list" where
  "get_frame_selection ov video fidx =
     slice_from (- trail_length ov)
       (sort_key frame_idx (find (tto_labels ov) video (py_range 0 (fidx + 1))))"

definition get_tracks_in_frame :: "track_trail_overlay \<Rightarrow> video \<Rightarrow> int \<Rightarrow> bool \<Rightarrow> track list" where
  "get_tracks_in_frame ov video fidx include_trails =
     (let lfs = (if include_trails then get_frame_selection ov video fidx
                 else find (tto_labels ov) video (\<lambda>i. i = fidx))
      in concat (map (\<lambda>lf. map inst_track (instances lf)) lfs))"

text \<open>
  The body of the loop over the trails of a track: two \<open>addPolygon\<close> calls, each with
  the pen as it is at the call (\<open>trail[:half]\<close> after \<open>setAlphaF(1)\<close>, then
  \<open>trail[half:]\<close> after \<open>setAlphaF(0.5)\<close>).
\<close>

definition draw_trail :: "rgb \<Rightarrow> scene_item list \<Rightarrow> trail \<Rightarrow> scene_item list" where
  "draw_trail color sc trl =
     (let half = length trl div 2;
          sc1 = sc @ [Polygon (take half trl) (Pen color 1)];
          sc2 = sc1 @ [Polygon (drop half trl) (Pen color (1 / 2))]
      in sc2)"

text \<open>The body of the loop over \<open>tracks_in_frame\<close>.\<close>

definition draw_track ::
  "track_trail_overlay \<Rightarrow> labeled_frame list \<Rightarrow> scene_item list \<Rightarrow> track \<Rightarrow> scene_item list" where
  "draw_track ov frame_selection sc trk =
     (let trails = get_track_trails (tto_labels ov) frame_selection trk;
          color = get_track_color (tto_player ov) trk
      in foldl (draw_trail color) sc trails)"

definition add_to_scene :: "track_trail_overlay \<Rightarrow> video \<Rightarrow> int \<Rightarrow> track_trail_overlay" where
  "add_to_scene ov video fidx =
     (if \<not> show_flag ov then ov
      else
        let frame_selection = get_frame_selection ov video fidx;
            tracks_in_frame = get_tracks_in_frame ov video fidx True
        in ov\<lparr>tto_player := (tto_player ov)
               \<lparr>scene := foldl (draw_track ov frame_selection) (scene (tto_player ov))
                           tracks_in_frame\<rparr>\<rparr>)"

subsection \<open>TrackListOverlay\<close>

record track_list_overlay =
  tlo_labels :: labels
  tlo_player :: qt_video_player
  text_box :: "text_box option"

text \<open>Python's \<open>str\<close> of an integer: its decimal digits, with a minus sign if negative.\<close>

fun str_nat :: "nat \<Rightarrow> string" where
  "str_nat n =
     (if n < 10 then [''0123456789'' ! n]
      else str_nat (n div 10) @ [''0123456789'' ! (n mod 10)])"

definition str_int :: "int \<Rightarrow> string" where
  "str_int i = (if i < 0 then CHR ''-'' # str_nat (nat (- i)) else str_nat (nat i))"

text \<open>
  The format \<open>02X\<close> of an integer: upper-case hexadecimal digits after the sign,
  filled with zeros to two characters.
\<close>

fun upper_hex :: "nat \<Rightarrow> string" where
  "upper_hex n =
     (if n < 16 then [''0123456789ABCDEF'' ! n]
      else upper_hex (n div 16) @ [''0123456789ABCDEF'' ! (n mod 16)])"

definition format_02X :: "int \<Rightarrow> string" where
  "format_02X i =
     (if i < 0 then CHR ''-'' # upper_hex (nat (- i))
      else replicate (2 - length (upper_hex (nat i))) CHR ''0'' @ upper_hex (nat i))"

text \<open>The body of the loop over \<open>enumerate(self.labels.tracks[:num_to_show])\<close>.\<close>

definition track_list_step :: "qt_video_player \<Rightarrow> string \<Rightarrow> nat \<times> track \<Rightarrow> string" where
  "track_list_step pl html p =
     (let idx = int (fst p) + 1; trk = snd p;
          html1 = (if html \<noteq> [] then html @ ''<br />'' else html);
          color = get_track_color pl trk;
          html_color = ''#'' @ format_02X (fst color) @ format_02X (fst (snd color))
                         @ format_02X (snd (snd color));
          track_text = ''<b>'' @ name trk @ ''</b>'';
          track_text1 = (if str_int idx \<noteq> name trk
                         then track_text @ '' ('' @ str_int idx @ '')'' else track_text)
      in html1 @ ''<span style='' @ [CHR 0x27] @ ''color:'' @ html_color @ [CHR 0x27] @ ''>''
           @ track_text1 @ ''</span>'')"

definition track_list_html :: "track_list_overlay \<Rightarrow> string" where
  "track_list_html ov =
     (let num_to_show = min 9 (length (tracks (tlo_labels ov)))
      in foldl (track_list_step (tlo_player ov)) []
           (enumerate 0 (take num_to_show (tracks (tlo_labels ov)))))"

text \<open>
  \<open>TrackListOverlay.add_to_scene\<close>: the text box becomes the overlay's, is hidden by the
  \<open>visible\<close> setter, and is added to the scene.
\<close>

definition track_list_add_to_scene :: "track_list_overlay \<Rightarrow> video \<Rightarrow> int \<Rightarrow> track_list_overlay" where
  "track_list_add_to_scene ov video fidx =
     (let tb = QtTextWithBackground (track_list_html ov) ''white'' (7 / 10) False
      in ov\<lparr>text_box := Some tb,
            tlo_player := (tlo_player ov)\<lparr>scene := scene (tlo_player ov) @ [TextItem tb]\<rparr>\<rparr>)"

subsection \<open>The trail of one landmark, and the labels of the track list\<close>

text \<open>
  The first instance of the track in a frame (\<open>inst_on_track[0]\<close>), if there is one.
\<close>

definition first_on_track :: "track \<Rightarrow> labeled_frame \<Rightarrow> sleap_instance option" where
  "first_on_track trk f = List.find (\<lambda>inst. inst_track inst = trk) (instances f)"

text \<open>
  What a frame in which the track has an instance adds to the trail of a landmark: the
  landmark's position if the instance has it and it is visible, else the last sample
  again if there is one, else nothing.
\<close>

definition landmark_sample :: "sleap_instance \<Rightarrow> node \<Rightarrow> trail \<Rightarrow> trail" where
  "landmark_sample inst nd acc =
     (case inst_points inst nd of
        Some q \<Rightarrow> if visible q then acc @ [(x_coord q, y_coord q)]
                  else if acc \<noteq> [] then acc @ [last acc] else acc
      | None \<Rightarrow> if acc \<noteq> [] then acc @ [last acc] else acc)"

text \<open>
  The trail of one landmark over the frames of the window, frame by frame: a frame
  without an instance of the track leaves the trail as it is.
\<close>

fun landmark_trail :: "track \<Rightarrow> node \<Rightarrow> labeled_frame list \<Rightarrow> trail \<Rightarrow> trail" where
  "landmark_trail trk nd [] acc = acc"
| "landmark_trail trk nd (f # fs) acc =
     landmark_trail trk nd fs
       (case first_on_track trk f of
          None \<Rightarrow> acc
        | Some inst \<Rightarrow> landmark_sample inst nd acc)"

text \<open>
  The trail as the specification words it: the position is appended if the track has an
  instance in the frame and the landmark is visible; otherwise the last sample is
  carried forward if there is one, also in a frame without an instance of the track.
\<close>

fun spec_landmark_trail :: "track \<Rightarrow> node \<Rightarrow> labeled_frame list \<Rightarrow> trail \<Rightarrow> trail" where
  "spec_landmark_trail trk nd [] acc = acc"
| "spec_landmark_trail trk nd (f # fs) acc =
     spec_landmark_trail trk nd fs
       (case first_on_track trk f of
          None \<Rightarrow> if acc \<noteq> [] then acc @ [last acc] else acc
        | Some inst \<Rightarrow> landmark_sample inst nd acc)"

text \<open>The two polygons of a trail, in the order of the calls.\<close>

definition trail_polygons :: "rgb \<Rightarrow> trail \<Rightarrow> scene_item list" where
  "trail_polygons color trl =
     [Polygon (take (length trl div 2) trl) (Pen color 1),
      Polygon (drop (length trl div 2) trl) (Pen color (1 / 2))]"

text \<open>
  The two polygons as the specification words them: the later half first with alpha 1,
  the earlier half second with alpha 0.5.
\<close>

definition spec_trail_polygons :: "rgb \<Rightarrow> trail \<Rightarrow> scene_item list" where
  "spec_trail_polygons color trl =
     [Polygon (drop (length trl div 2) trl) (Pen color 1),
      Polygon (take (length trl div 2) trl) (Pen color (1 / 2))]"

text \<open>Python's \<open>sep.join(parts)\<close>.\<close>

fun join :: "string \<Rightarrow> string list \<Rightarrow> string" where
  "join sep [] = []"
| "join sep [s] = s"
| "join sep (s # t # ts) = s @ sep @ join sep (t # ts)"

definition html_color_of :: "rgb \<Rightarrow> string" where
  "html_color_of c =
     CHR ''#'' # format_02X (fst c) @ format_02X (fst (snd c)) @ format_02X (snd (snd c))"

text \<open>
  The label of the track at position \<open>idx\<close> (from 1): the bold name in the track's
  color, followed by the position in parentheses unless the name is the position.
\<close>

definition track_label :: "qt_video_player \<Rightarrow> int \<Rightarrow> track \<Rightarrow> string" where
  "track_label pl idx trk =
     ''<span style='' @ [CHR 0x27] @ ''color:'' @ html_color_of (get_track_color pl trk)
       @ [CHR 0x27] @ ''>'' @ ''<b>'' @ name trk @ ''</b>''
       @ (if name trk = str_int idx then [] else '' ('' @ str_int idx @ '')'')
       @ ''</span>''"

definition shown_labels :: "track_list_overlay \<Rightarrow> string list" where
  "shown_labels ov =
     map (\<lambda>p. track_label (tlo_player ov) (int (fst p) + 1) (snd p))
       (enumerate 0 (take 9 (tracks (tlo_labels ov))))"

subsection \<open>Example stores\<close>

definition ex_track :: track where
  "ex_track = Track 0 ''mouse''"

definition ex_inst :: "real \<Rightarrow> real \<Rightarrow> bool \<Rightarrow> sleap_instance" where
  "ex_inst a b v = Instance ex_track [''nose'' \<mapsto> Point a b v]"

definition ex_player :: qt_video_player where
  "ex_player = \<lparr>get_track_color = (\<lambda>_. (255, 0, 10)), scene = []\<rparr>"

definition ex_overlay :: "labeled_frame list \<Rightarrow> int \<Rightarrow> track_trail_overlay" where
  "ex_overlay lfs n =
     \<lparr>tto_labels = Labels lfs [''nose''] [ex_track], tto_player = ex_player,
      trail_length = n, show_flag = True\<rparr>"

definition ex_moving :: "labeled_frame list" where
  "ex_moving = [LabeledFrame 0 1 [ex_inst 1 1 True], LabeledFrame 0 2 [ex_inst 2 2 True],
                LabeledFrame 0 3 [ex_inst 3 3 True], LabeledFrame 0 4 [ex_inst 4 4 True]]"

definition ex_occluded :: "labeled_frame list" where
  "ex_occluded = [LabeledFrame 0 1 [ex_inst 5 5 True], LabeledFrame 0 2 [ex_inst 0 0 False],
                  LabeledFrame 0 3 [ex_inst 0 0 False], LabeledFrame 0 4 [ex_inst 9 9 True]]"

definition ex_absent :: "labeled_frame list" where
  "ex_absent = [LabeledFrame 0 1 [ex_inst 5 5 True], LabeledFrame 0 2 []]"

definition ex_two :: "labeled_frame list" where
  "ex_two = [LabeledFrame 0 1 [ex_inst 1 1 True], LabeledFrame 0 2 [ex_inst 2 2 True]]"

definition ex_tracks :: "track list" where
  "ex_tracks = [Track 0 ''1'', Track 1 ''b'', Track 2 ''3'', Track 3 ''d'', Track 4 ''e'',
                Track 5 ''f'', Track 6 ''g'', Track 7 ''h'', Track 8 ''i'', Track 9 ''j'',
                Track 10 ''k'']"

definition ex_list_overlay :: track_list_overlay where
  "ex_list_overlay =
     \<lparr>tlo_labels = Labels [] [] ex_tracks, tlo_player = ex_player, text_box = None\<rparr>"


section \<open>The form builder (sleap/gui/formbuilder.py)\<close>

subsection \<open>Python values and built-ins\<close>

text \<open>
  The values that travel between a form and its caller, and the exceptions that the
  calls can raise. A float is modelled as the real number it stands for.
\<close>

datatype pyval = PNone | PBool bool | PInt int | PFloat real | PStr string

datatype error = TypeError | ValueError | IndexError | KeyError | AttributeError | OverflowError

type_synonym pydict = "(string \<times> pyval) list"

text \<open>
  The built-ins whose string formats are not reproduced here are parameters of the
  model: \<open>str\<close> of a float, and \<open>int\<close> and \<open>float\<close> of a string (\<open>None\<close> where
  Python raises ValueError).
\<close>

record builtins =
  str_of_float :: "real \<Rightarrow> string"
  int_of_str :: "string \<Rightarrow> int option"
  float_of_str :: "string \<Rightarrow> real option"

definition trunc :: "real \<Rightarrow> int" where
  "trunc x = (if 0 \<le> x then \<lfloor>x\<rfloor> else \<lceil>x\<rceil>)"

fun py_str :: "builtins \<Rightarrow> pyval \<Rightarrow> string" where
  "py_str bi PNone = ''None''"
| "py_str bi (PBool b) = (if b then ''True'' else ''False'')"
| "py_str bi (PInt i) = str_int i"
| "py_str bi (PFloat x) = str_of_float bi x"
| "py_str bi (PStr s) = s"

fun py_int :: "builtins \<Rightarrow> pyval \<Rightarrow> error + pyval" where
  "py_int bi PNone = Inl TypeError"
| "py_int bi (PBool b) = Inr (PInt (if b then 1 else 0))"
| "py_int bi (PInt i) = Inr (PInt i)"
| "py_int bi (PFloat x) = Inr (PInt (trunc x))"
| "py_int bi (PStr s) = (case int_of_str bi s of None \<Rightarrow> Inl ValueError | Some i \<Rightarrow> Inr (PInt i))"

fun py_float :: "builtins \<Rightarrow> pyval \<Rightarrow> error + pyval" where
  "py_float bi PNone = Inl TypeError"
| "py_float bi (PBool b) = Inr (PFloat (if b then 1 else 0))"
| "py_float bi (PInt i) = Inr (PFloat (of_int i))"
| "py_float bi (PFloat x) = Inr (PFloat x)"
| "py_float bi (PStr s) =
     (case float_of_str bi s of None \<Rightarrow> Inl ValueError | Some x \<Rightarrow> Inr (PFloat x))"

text \<open>
  The subscript \<open>xs[i]\<close> of a list: the positions 0 to len - 1 are read directly, the
  positions -len to -1 are read from the end, and any other position raises IndexError.
\<close>

definition py_index :: "'a list \<Rightarrow> int \<Rightarrow> error + 'a" where
  "py_index xs i =
     (if 0 \<le> i \<and> i < int (length xs) then Inr (xs ! nat i)
      else if - int (length xs) \<le> i \<and> i < 0 then Inr (xs ! nat (int (length xs) + i))
      else Inl IndexError)"

text \<open>\<open>s.split(sep)\<close> for a separator of one character.\<close>

fun py_split :: "char \<Rightarrow> string \<Rightarrow> string list" where
  "py_split sep [] = [[]]"
| "py_split sep (c # cs) =
     (if c = sep then [] # py_split sep cs
      else (case py_split sep cs of [] \<Rightarrow> [[c]] | p # ps \<Rightarrow> (c # p) # ps))"

text \<open>\<open>s.startswith(p)\<close>, \<open>x in s\<close> for strings (substring), and \<open>s.lower()\<close> on ASCII.\<close>

fun startswith :: "string \<Rightarrow> string \<Rightarrow> bool" where
  "startswith s [] = True"
| "startswith [] (p # ps) = False"
| "startswith (c # cs) (p # ps) = (c = p \<and> startswith cs ps)"

fun py_in_str :: "string \<Rightarrow> string \<Rightarrow> bool" where
  "py_in_str x [] = (x = [])"
| "py_in_str x (c # cs) = (startswith (c # cs) x \<or> py_in_str x cs)"

definition lower_char :: "char \<Rightarrow> char" where
  "lower_char c =
     (if 65 \<le> (of_char c :: nat) \<and> (of_char c :: nat) \<le> 90
      then char_of ((of_char c :: nat) + 32) else c)"

definition lower :: "string \<Rightarrow> string" where
  "lower s = map lower_char s"

text \<open>
  A str object as the operator \<open>is\<close> sees it: the object of a literal of the source
  (interned at compile time), or an object built at run time, as \<open>split\<close> builds its
  parts. CPython keeps one object for the empty string and for every one-character
  string; a longer string built at run time is a new object, never the object of a
  literal.
\<close>

datatype str_obj = Literal (str_chars: string) | Built (str_chars: string)

fun is_literal :: "str_obj \<Rightarrow> string \<Rightarrow> bool" where
  "is_literal (Literal s) lit = (s = lit)"
| "is_literal (Built s) lit = (s = lit \<and> length s \<le> 1)"

subsection \<open>The controls of Qt\<close>

text \<open>
  The classes of Qt that the form builder instantiates (\<open>QSpinBox\<close>, \<open>QDoubleSpinBox\<close>,
  \<open>QCheckBox\<close>, \<open>QPushButton\<close>, \<open>QLineEdit\<close>, \<open>QComboBox\<close>) belong to the toolkit; each
  is modelled by the state that its value depends on, with the behaviour that Qt
  documents for the calls the form builder makes.
\<close>

text \<open>
  The binding's conversion of a Python number to a C++ \<open>int\<close>, \<open>double\<close> or \<open>bool\<close>
  parameter: a float is cut toward zero for an \<open>int\<close>, a value of another type raises
  TypeError.
\<close>

definition in_c_int :: "int \<Rightarrow> bool" where
  "in_c_int n = (- (2 ^ 31) \<le> n \<and> n < 2 ^ 31)"

fun to_c_int :: "pyval \<Rightarrow> error + int" where
  "to_c_int (PInt n) = (if in_c_int n then Inr n else Inl OverflowError)"
| "to_c_int (PBool b) = Inr (if b then 1 else 0)"
| "to_c_int (PFloat x) = (if in_c_int (trunc x) then Inr (trunc x) else Inl OverflowError)"
| "to_c_int _ = Inl TypeError"

fun to_c_double :: "pyval \<Rightarrow> error + real" where
  "to_c_double (PFloat x) = Inr x"
| "to_c_double (PInt n) = Inr (of_int n)"
| "to_c_double (PBool b) = Inr (if b then 1 else 0)"
| "to_c_double _ = Inl TypeError"

fun to_c_bool :: "pyval \<Rightarrow> error + bool" where
  "to_c_bool (PBool b) = Inr b"
| "to_c_bool (PInt n) = Inr (n \<noteq> 0)"
| "to_c_bool (PFloat x) = Inr (trunc x \<noteq> 0)"
| "to_c_bool _ = Inl TypeError"

text \<open>
  \<open>QSpinBox\<close> (minimum, maximum, value; 0, 99 and 0 when created) and
  \<open>QDoubleSpinBox\<close> (minimum, maximum, decimals, value; 0, 99.99, 2 and 0 when
  created). \<open>setValue\<close> rounds a double to the decimals and brings the value into the
  range.
\<close>

datatype spin_box =
    QSpinBox (sb_minimum: int) (sb_maximum: int) (sb_value: int)
  | QDoubleSpinBox (dsb_minimum: real) (dsb_maximum: real) (dsb_decimals: nat) (dsb_value: real)

definition new_QSpinBox :: spin_box where
  "new_QSpinBox = QSpinBox 0 99 0"

definition new_QDoubleSpinBox :: spin_box where
  "new_QDoubleSpinBox = QDoubleSpinBox 0 (9999 / 100) 2 0"

definition round_decimals :: "nat \<Rightarrow> real \<Rightarrow> real" where
  "round_decimals d x = of_int (round (x * 10 ^ d)) / 10 ^ d"

fun spin_setValue :: "spin_box \<Rightarrow> pyval \<Rightarrow> error + spin_box" where
  "spin_setValue (QSpinBox lo hi v) val =
     (case to_c_int val of
        Inl e \<Rightarrow> Inl e
      | Inr n \<Rightarrow> Inr (QSpinBox lo hi (max lo (min hi n))))"
| "spin_setValue (QDoubleSpinBox lo hi d v) val =
     (case to_c_double val of
        Inl e \<Rightarrow> Inl e
      | Inr x \<Rightarrow> Inr (QDoubleSpinBox lo hi d (max lo (min hi (round_decimals d x)))))"

fun spin_value :: "spin_box \<Rightarrow> pyval" where
  "spin_value (QSpinBox lo hi v) = PInt v"
| "spin_value (QDoubleSpinBox lo hi d v) = PFloat v"

subsection \<open>OptionalSpinWidget\<close>

datatype optional_spin =
  OptionalSpinWidget (none_string: string) (spin_widget: spin_box) (check_widget: bool)

text \<open>\<open>__init__\<close>: the spin box is a \<open>QDoubleSpinBox\<close> if \<open>type is "double"\<close>.\<close>

definition OptionalSpinWidget_init :: "str_obj \<Rightarrow> string \<Rightarrow> optional_spin" where
  "OptionalSpinWidget_init type none_str =
     OptionalSpinWidget none_str
       (if is_literal type ''double'' then new_QDoubleSpinBox else new_QSpinBox) False"

text \<open>
  \<open>isNoneVal\<close>. The tests \<open>in ("none")\<close> and \<open>in ("auto")\<close> are tests against a string,
  so they hold for every substring; \<open>in ("", "none")\<close> is a test against a tuple.
\<close>

definition isNoneVal :: "optional_spin \<Rightarrow> pyval \<Rightarrow> bool" where
  "isNoneVal w val =
     (case val of
        PNone \<Rightarrow> True
      | PStr s \<Rightarrow>
          if lower (none_string w) = '''' \<or> lower (none_string w) = ''none''
          then py_in_str (lower s) ''none''
          else if py_in_str (lower (none_string w)) ''auto''
          then py_in_str (lower s) ''auto''
          else False
      | _ \<Rightarrow> False)"

definition optional_value :: "optional_spin \<Rightarrow> pyval" where
  "optional_value w = (if check_widget w then PNone else spin_value (spin_widget w))"

definition optional_setValue :: "optional_spin \<Rightarrow> pyval \<Rightarrow> error + optional_spin" where
  "optional_setValue w val =
     (let is_none = isNoneVal w val
      in if \<not> is_none
         then (case spin_setValue (spin_widget w) val of
                 Inl e \<Rightarrow> Inl e
               | Inr s \<Rightarrow> Inr (OptionalSpinWidget (none_string w) s is_none))
         else Inr (OptionalSpinWidget (none_string w) (spin_widget w) is_none))"

text \<open>
  The branch of \<open>build_form\<close> for the types \<open>optional_int\<close>, \<open>optional_double\<close> and
  \<open>auto_int\<close>: the spin type is the last part of the type name, as \<open>split\<close> builds it.
\<close>

definition build_optional_spin :: "string \<Rightarrow> pyval \<Rightarrow> error + optional_spin" where
  "build_optional_spin item_type dflt =
     (let spin_type = Built (last (py_split CHR ''_'' item_type));
          none_str = (if startswith item_type ''auto'' then ''auto'' else ''none'');
          field = OptionalSpinWidget_init spin_type none_str
      in optional_setValue field dflt)"

subsection \<open>FieldComboWidget\<close>

text \<open>
  The combo box: the entries of the \<open>QComboBox\<close> (a separator is an entry without
  text) and its current index (-1 when empty), with the attributes of the class.
  \<open>options_list\<close> is unset until \<open>set_options\<close> is called.
\<close>

datatype field_combo =
  FieldComboWidget (result_as_idx: bool) (add_blank_option: bool)
    (options_list: "string list option") (combo_items: "string list") (currentIndex: int)

definition new_FieldComboWidget :: "bool \<Rightarrow> bool \<Rightarrow> field_combo" where
  "new_FieldComboWidget as_idx blank = FieldComboWidget as_idx blank None [] (- 1)"

fun findText_from :: "string list \<Rightarrow> string \<Rightarrow> int \<Rightarrow> int" where
  "findText_from [] t i = - 1"
| "findText_from (x # xs) t i = (if x = t then i else findText_from xs t (i + 1))"

definition findText :: "string list \<Rightarrow> string \<Rightarrow> int" where
  "findText items t = findText_from items t 0"

definition currentText :: "string list \<Rightarrow> int \<Rightarrow> string" where
  "currentText items i = (if 0 \<le> i \<and> i < int (length items) then items ! nat i else [])"

text \<open>\<open>QComboBox.addItem\<close>: the first entry of an empty box becomes the current one.\<close>

definition addItem :: "string \<Rightarrow> field_combo \<Rightarrow> field_combo" where
  "addItem t c =
     FieldComboWidget (result_as_idx c) (add_blank_option c) (options_list c)
       (combo_items c @ [t]) (if combo_items c = [] then 0 else currentIndex c)"

text \<open>\<open>QComboBox.setCurrentText\<close> of a box that is not editable.\<close>

definition setCurrentText :: "string \<Rightarrow> field_combo \<Rightarrow> field_combo" where
  "setCurrentText t c =
     (let i = findText (combo_items c) t
      in if i > - 1
         then FieldComboWidget (result_as_idx c) (add_blank_option c) (options_list c)
                (combo_items c) i
         else c)"

definition combo_value :: "field_combo \<Rightarrow> pyval" where
  "combo_value c =
     (if result_as_idx c
      then (let val = currentIndex c in if add_blank_option c then PInt (val - 1) else PInt val)
      else PStr (currentText (combo_items c) (currentIndex c)))"

definition combo_setValue :: "builtins \<Rightarrow> field_combo \<Rightarrow> pyval \<Rightarrow> error + field_combo" where
  "combo_setValue bi c val =
     (case val of
        PInt v \<Rightarrow>
          (case options_list c of
             None \<Rightarrow> Inl AttributeError
           | Some opts \<Rightarrow>
               if v \<le> int (length opts) \<and> result_as_idx c
               then (case py_index opts v of
                       Inl e \<Rightarrow> Inl e
                     | Inr t \<Rightarrow> Inr (setCurrentText t c))
               else Inr (setCurrentText (py_str bi val) c))
      | _ \<Rightarrow> Inr (setCurrentText (py_str bi val) c))"

text \<open>The loop of \<open>set_options\<close> over the options.\<close>

definition add_option :: "string \<Rightarrow> field_combo \<Rightarrow> field_combo" where
  "add_option item c = (if item = ''---'' then addItem [] c else addItem item c)"

definition set_options :: "builtins \<Rightarrow> field_combo \<Rightarrow> string list \<Rightarrow> pyval option \<Rightarrow> error + field_combo" where
  "set_options bi c opts select_item =
     (let c1 = FieldComboWidget (result_as_idx c) (add_blank_option c) (Some opts) [] (- 1);
          c2 = (if add_blank_option c1 then addItem [] c1 else c1);
          c3 = fold add_option opts c2
      in case select_item of
           None \<Rightarrow> Inr c3
         | Some v \<Rightarrow> combo_setValue bi c3 v)"

text \<open>
  The branch of \<open>build_form\<close> for the type \<open>list\<close>, for an item with the key
  \<open>options\<close> (and a name without a custom list of options). The last argument is the
  entry of the item for the key \<open>default\<close>, if it has one: without the key,
  \<open>item.get("default", "")\<close> is \<open>""\<close> and the blank text is selected; with the value
  \<open>None\<close> for the key, \<open>select_item\<close> is \<open>None\<close> and \<open>set_options\<close> selects nothing.
\<close>

definition build_list_field :: "builtins \<Rightarrow> string \<Rightarrow> string \<Rightarrow> pyval option \<Rightarrow> error + field_combo" where
  "build_list_field bi type_options options dflt =
     (let result_as_optional_idx = (type_options = ''optional_index'');
          field = new_FieldComboWidget result_as_optional_idx result_as_optional_idx;
          select_item = (case dflt of
                           None \<Rightarrow> Some (PStr [])
                         | Some PNone \<Rightarrow> None
                         | Some v \<Rightarrow> Some v)
      in set_options bi field (py_split CHR '','' options) select_item)"

text \<open>\<open>QComboBox.setCurrentIndex\<close>, which is also what the user's choice of an entry does.\<close>

definition setCurrentIndex :: "int \<Rightarrow> field_combo \<Rightarrow> field_combo" where
  "setCurrentIndex i c =
     FieldComboWidget (result_as_idx c) (add_blank_option c) (options_list c) (combo_items c)
       (if 0 \<le> i \<and> i < int (length (combo_items c)) then i else - 1)"

subsection \<open>Widgets and forms\<close>

text \<open>
  A widget of a form: its object name, its property \<open>field_data_type\<close> and the control
  it is. A \<open>StackBuilderWidget\<close> holds its list of options (which are also the entries
  of its combo box, in this order), the dictionary \<open>page_layouts\<close> from an option to
  the form of its page, and the current index of its combo box. A form
  (\<open>FormBuilderLayout\<close>) is its dictionary \<open>fields\<close>, in the order of insertion.
\<close>

datatype control =
    SpinBox spin_box
  | QCheckBox bool
  | QPushButton string
  | QLineEdit string
  | OptionalSpin optional_spin
  | FieldCombo field_combo
  | StackBuilderWidget (option_list: "string list")
      (page_layouts: "(string \<times> (string \<times> widget) list) list") (combo_box: int)
and widget = Widget (objectName: string) (field_data_type: string) (control: control)

type_synonym form = "(string \<times> widget) list"

fun is_stack :: "widget \<Rightarrow> bool" where
  "is_stack (Widget _ _ (StackBuilderWidget _ _ _)) = True"
| "is_stack _ = False"

fun is_button :: "widget \<Rightarrow> bool" where
  "is_button (Widget _ _ (QPushButton _)) = True"
| "is_button _ = False"

text \<open>The first error of a list of results, or all the values.\<close>

fun collect :: "(error + 'a) list \<Rightarrow> error + 'a list" where
  "collect [] = Inr []"
| "collect (r # rs) =
     (case r of
        Inl e \<Rightarrow> Inl e
      | Inr v \<Rightarrow> (case collect rs of Inl e \<Rightarrow> Inl e | Inr vs \<Rightarrow> Inr (v # vs)))"

text \<open>\<open>StackBuilderWidget.value\<close> and \<open>setValue\<close>.\<close>

definition stack_value :: "control \<Rightarrow> string" where
  "stack_value c = currentText (option_list c) (combo_box c)"

definition stack_setValue :: "control \<Rightarrow> pyval \<Rightarrow> control" where
  "stack_setValue c val =
     (case val of
        PStr s \<Rightarrow>
          if s \<notin> set (option_list c) then c
          else StackBuilderWidget (option_list c) (page_layouts c) (findText (option_list c) s)
      | _ \<Rightarrow> c)"

text \<open>
  \<open>get_widget_value\<close>: the value of the control, by the first of \<open>isChecked\<close>,
  \<open>value\<close>, \<open>currentText\<close> and \<open>text\<close> that the control has, then converted as the
  property \<open>field_data_type\<close> asks.
\<close>

fun raw_widget_value :: "control \<Rightarrow> pyval" where
  "raw_widget_value (QCheckBox b) = PBool b"
| "raw_widget_value (QPushButton l) = PBool False"
| "raw_widget_value (SpinBox s) = spin_value s"
| "raw_widget_value (OptionalSpin w) = optional_value w"
| "raw_widget_value (FieldCombo c) = combo_value c"
| "raw_widget_value (StackBuilderWidget opts pages i) =
     PStr (stack_value (StackBuilderWidget opts pages i))"
| "raw_widget_value (QLineEdit t) = PStr t"

definition get_widget_value :: "builtins \<Rightarrow> widget \<Rightarrow> error + pyval" where
  "get_widget_value bi w =
     (let val = raw_widget_value (control w)
      in if field_data_type w = ''sci'' then py_float bi val
         else if field_data_type w = ''int'' then py_int bi val
         else if startswith (field_data_type w) ''file_''
         then Inr (if val = PStr ''None'' then PNone else val)
         else Inr val)"

text \<open>
  \<open>QLineEdit.setText\<close>: the binding refuses a string that holds a NUL character with a
  ValueError, and the text field keeps the text up to its \<open>maxLength\<close>, which is 32767
  for a field as \<open>build_form\<close> creates it.
\<close>

definition setText :: "string \<Rightarrow> error + string" where
  "setText s = (if CHR 0x00 \<in> set s then Inl ValueError else Inr (take 32767 s))"

text \<open>
  \<open>set_widget_value\<close>, by the first of \<open>isChecked\<close>, \<open>setValue\<close>, \<open>currentText\<close> and
  \<open>text\<close> that the control has. A push button is not checkable: \<open>setChecked\<close> leaves
  it as it is.
\<close>

fun set_control_value :: "builtins \<Rightarrow> control \<Rightarrow> pyval \<Rightarrow> error + control" where
  "set_control_value bi (QCheckBox b) val =
     (case to_c_bool val of Inl e \<Rightarrow> Inl e | Inr b' \<Rightarrow> Inr (QCheckBox b'))"
| "set_control_value bi (QPushButton l) val =
     (case to_c_bool val of Inl e \<Rightarrow> Inl e | Inr b' \<Rightarrow> Inr (QPushButton l))"
| "set_control_value bi (SpinBox s) val =
     (case spin_setValue s val of Inl e \<Rightarrow> Inl e | Inr s' \<Rightarrow> Inr (SpinBox s'))"
| "set_control_value bi (OptionalSpin w) val =
     (case optional_setValue w val of Inl e \<Rightarrow> Inl e | Inr w' \<Rightarrow> Inr (OptionalSpin w'))"
| "set_control_value bi (FieldCombo c) val =
     (case combo_setValue bi c val of Inl e \<Rightarrow> Inl e | Inr c' \<Rightarrow> Inr (FieldCombo c'))"
| "set_control_value bi (StackBuilderWidget opts pages i) val =
     Inr (stack_setValue (StackBuilderWidget opts pages i) val)"
| "set_control_value bi (QLineEdit t) val =
     (case setText (py_str bi val) of Inl e \<Rightarrow> Inl e | Inr t' \<Rightarrow> Inr (QLineEdit t'))"

definition set_widget_value :: "builtins \<Rightarrow> widget \<Rightarrow> pyval \<Rightarrow> error + widget" where
  "set_widget_value bi w val =
     (case set_control_value bi (control w) val of
        Inl e \<Rightarrow> Inl e
      | Inr c \<Rightarrow> Inr (Widget (objectName w) (field_data_type w) c))"

text \<open>The size of a form, for the recursion into the pages of its stacked widgets.\<close>

definition form_size :: "form \<Rightarrow> nat" where
  "form_size fs = size_list (size_prod (\<lambda>_. 0) size) fs"

lemma page_smaller:
  assumes "(n, w) \<in> set fs" "control w = StackBuilderWidget opts pages i"
    and "(k, page) \<in> set pages"
  shows "form_size page < form_size fs"
proof -
  have "form_size page < size_prod (\<lambda>_. 0) (size_list (size_prod (\<lambda>_. 0) size)) (k, page)"
    by (simp add: form_size_def)
  also have "\<dots> \<le> size_list (size_prod (\<lambda>_. 0) (size_list (size_prod (\<lambda>_. 0) size))) pages"
    using assms(3) by (rule size_list_estimation') simp
  also have "\<dots> < size (control w)" using assms(2) by simp
  also have "\<dots> < size w" by (cases w) simp
  also have "\<dots> < size_prod (\<lambda>_. 0) size (n, w)" by simp
  also have "\<dots> \<le> form_size fs"
    unfolding form_size_def using assms(1) by (rule size_list_estimation') simp
  finally show ?thesis .
qed

lemma selected_page_smaller:
  assumes "w \<in> set (filter is_stack (map snd fs))"
    and "control w = StackBuilderWidget opts pages i"
    and "map_of pages k = Some page"
  shows "form_size page < form_size fs"
proof -
  obtain n where "(n, w) \<in> set fs" using assms(1) by auto
  moreover have "(k, page) \<in> set pages" using assms(3) by (rule map_of_SomeD)
  ultimately show ?thesis using assms(2) by (auto intro: page_smaller)
qed

text \<open>
  \<open>find_field\<close>: the widgets of the form with the name, labels and push buttons apart,
  then what \<open>find_field\<close> of every stacked widget finds, which is what the form of
  the page of its current option finds (\<open>page_layouts[self.value()]\<close>).
\<close>

function find_field :: "form \<Rightarrow> string \<Rightarrow> error + widget list" where
  "find_field fs field_name =
     (let widgets = map snd fs;
          found = filter (\<lambda>w. objectName w = field_name \<and> \<not> is_button w) widgets;
          stacks = filter is_stack widgets
      in case collect (map (\<lambda>stack.
                  case map_of (page_layouts (control stack)) (stack_value (control stack)) of
                    None \<Rightarrow> Inl KeyError
                  | Some page \<Rightarrow> find_field page field_name) stacks) of
           Inl e \<Rightarrow> Inl e
         | Inr rs \<Rightarrow> Inr (found @ concat rs))"
  by pat_completeness auto
termination
proof (relation "measure (\<lambda>(fs, n). form_size fs)")
  show "wf (measure (\<lambda>(fs, n). form_size fs))" by simp
next
  fix fs :: form and field_name :: string and widgets :: "widget list"
    and found stacks :: "widget list" and w :: widget and page :: form
  assume "widgets = map snd fs" "stacks = filter is_stack widgets" "w \<in> set stacks"
    and look: "map_of (page_layouts (control w)) (stack_value (control w)) = Some page"
  then have mem: "w \<in> set (filter is_stack (map snd fs))" by simp
  then have "is_stack w" by simp
  then have "control w =
      StackBuilderWidget (option_list (control w)) (page_layouts (control w)) (combo_box (control w))"
    by (cases w rule: is_stack.cases) simp_all
  from selected_page_smaller [OF mem this look]
  show "((page, field_name), fs, field_name) \<in> measure (\<lambda>(fs, n). form_size fs)"
    by simp
qed

text \<open>The dictionary comprehension of \<open>get_form_data\<close>, and \<open>dict.update\<close>.\<close>

fun own_data :: "builtins \<Rightarrow> widget list \<Rightarrow> pydict \<Rightarrow> error + pydict" where
  "own_data bi [] data = Inr data"
| "own_data bi (w # ws) data =
     (if length (objectName w) \<noteq> 0 \<and> \<not> is_button w
      then (case get_widget_value bi w of
              Inl e \<Rightarrow> Inl e
            | Inr v \<Rightarrow> own_data bi ws (AList.update (objectName w) v data))
      else own_data bi ws data)"

definition dict_update :: "pydict \<Rightarrow> pydict \<Rightarrow> pydict" where
  "dict_update other data = fold (\<lambda>kv. AList.update (fst kv) (snd kv)) other data"

text \<open>
  \<open>get_form_data\<close>: the values of the widgets of the form, then updated with the data
  of every stacked widget, which is the data of the form of the page of its current
  option (\<open>get_data\<close>).
\<close>

function get_form_data :: "builtins \<Rightarrow> form \<Rightarrow> error + pydict" where
  "get_form_data bi fs =
     (let widgets = map snd fs
      in case own_data bi widgets [] of
           Inl e \<Rightarrow> Inl e
         | Inr data \<Rightarrow>
             (case collect (map (\<lambda>stack.
                      case map_of (page_layouts (control stack)) (stack_value (control stack)) of
                        None \<Rightarrow> Inl KeyError
                      | Some page \<Rightarrow> get_form_data bi page) (filter is_stack widgets)) of
                Inl e \<Rightarrow> Inl e
              | Inr stacked_data \<Rightarrow> Inr (fold dict_update stacked_data data)))"
  by pat_completeness auto
termination
proof (relation "measure (\<lambda>(bi, fs). form_size fs)")
  show "wf (measure (\<lambda>(bi, fs). form_size fs))" by simp
next
  fix bi :: builtins and fs :: form and widgets :: "widget list" and data :: pydict
    and w :: widget and page :: form
  assume "widgets = map snd fs" "w \<in> set (filter is_stack widgets)"
    and look: "map_of (page_layouts (control w)) (stack_value (control w)) = Some page"
  then have mem: "w \<in> set (filter is_stack (map snd fs))" by simp
  then have "is_stack w" by simp
  then have "control w =
      StackBuilderWidget (option_list (control w)) (page_layouts (control w)) (combo_box (control w))"
    by (cases w rule: is_stack.cases) simp_all
  from selected_page_smaller [OF mem this look]
  show "((bi, page), bi, fs) \<in> measure (\<lambda>(bi, fs). form_size fs)"
    by simp
qed

text \<open>
  \<open>set_form_data\<close>: every entry of the data whose name is a key of \<open>fields\<close> sets the
  widget of that name; an entry with another name is passed over.
\<close>

fun set_form_data :: "builtins \<Rightarrow> form \<Rightarrow> pydict \<Rightarrow> error + form" where
  "set_form_data bi fs [] = Inr fs"
| "set_form_data bi fs ((nm, val) # rest) =
     (case map_of fs nm of
        Some w \<Rightarrow>
          (case set_widget_value bi w val of
             Inl e \<Rightarrow> Inl e
           | Inr w' \<Rightarrow> set_form_data bi (AList.update nm w' fs) rest)
      | None \<Rightarrow> set_form_data bi fs rest)"

subsection \<open>The widgets reached through the selected pages\<close>

text \<open>
  The widgets of a form and, for every stacked widget, those of the form of the page of
  its current option, and so on.
\<close>

function active_widgets :: "form \<Rightarrow> widget list" where
  "active_widgets fs =
     (let widgets = map snd fs
      in widgets @ concat (map (\<lambda>stack.
             case map_of (page_layouts (control stack)) (stack_value (control stack)) of
               None \<Rightarrow> []
             | Some page \<Rightarrow> active_widgets page) (filter is_stack widgets)))"
  by pat_completeness auto
termination
proof (relation "measure form_size")
  show "wf (measure form_size)" by simp
next
  fix fs :: form and widgets :: "widget list" and w :: widget and page :: form
  assume "widgets = map snd fs" "w \<in> set (filter is_stack widgets)"
    and look: "map_of (page_layouts (control w)) (stack_value (control w)) = Some page"
  then have mem: "w \<in> set (filter is_stack (map snd fs))" by simp
  then have "is_stack w" by simp
  then have "control w =
      StackBuilderWidget (option_list (control w)) (page_layouts (control w)) (combo_box (control w))"
    by (cases w rule: is_stack.cases) simp_all
  from selected_page_smaller [OF mem this look]
  show "(page, fs) \<in> measure form_size" by simp
qed

text \<open>
  Every stacked widget reached through the selected pages has a page for its current
  option, as it has after \<open>__init__\<close>, which adds a page for every entry of the combo
  box.
\<close>

function pages_ok :: "form \<Rightarrow> bool" where
  "pages_ok fs =
     list_all (\<lambda>stack.
         case map_of (page_layouts (control stack)) (stack_value (control stack)) of
           None \<Rightarrow> False
         | Some page \<Rightarrow> pages_ok page) (filter is_stack (map snd fs))"
  by pat_completeness auto
termination
proof (relation "measure form_size")
  show "wf (measure form_size)" by simp
next
  fix fs :: form and w :: widget and page :: form
  assume mem: "w \<in> set (filter is_stack (map snd fs))"
    and look: "map_of (page_layouts (control w)) (stack_value (control w)) = Some page"
  then have "is_stack w" by simp
  then have "control w =
      StackBuilderWidget (option_list (control w)) (page_layouts (control w)) (combo_box (control w))"
    by (cases w rule: is_stack.cases) simp_all
  from selected_page_smaller [OF mem this look]
  show "(page, fs) \<in> measure form_size" by simp
qed

text \<open>
  The names of the widgets on the pages of the stacked widgets of a form, on all pages
  and at all depths.
\<close>

function page_names :: "form \<Rightarrow> string list" where
  "page_names fs =
     concat (map (\<lambda>stack.
         concat (map (\<lambda>kp. map (\<lambda>nw. objectName (snd nw)) (snd kp) @ page_names (snd kp))
                   (page_layouts (control stack))))
       (filter is_stack (map snd fs)))"
  by pat_completeness auto
termination
proof (relation "measure form_size")
  show "wf (measure form_size)" by simp
next
  fix fs :: form and w :: widget and kp :: "string \<times> form"
  assume mem: "w \<in> set (filter is_stack (map snd fs))"
    and kp: "kp \<in> set (page_layouts (control w))"
  obtain n where n: "(n, w) \<in> set fs" using mem by auto
  have "is_stack w" using mem by simp
  then have c: "control w =
      StackBuilderWidget (option_list (control w)) (page_layouts (control w)) (combo_box (control w))"
    by (cases w rule: is_stack.cases) simp_all
  have "(fst kp, snd kp) \<in> set (page_layouts (control w))" using kp by simp
  from page_smaller [OF n c this]
  show "(snd kp, fs) \<in> measure form_size" by simp
qed



declare find_field.simps [simp del] get_form_data.simps [simp del]
  active_widgets.simps [simp del] pages_ok.simps [simp del] page_names.simps [simp del]

subsection \<open>The values a field accepts\<close>








subsection \<open>Example forms\<close>

text \<open>Built-ins for the examples, none of which consults them.\<close>

definition ex_builtins :: builtins where
  "ex_builtins = \<lparr>str_of_float = (\<lambda>_. []), int_of_str = (\<lambda>_. None), float_of_str = (\<lambda>_. None)\<rparr>"

definition ex_combo :: field_combo where
  "ex_combo = FieldComboWidget True False (Some [''a'', ''b'', ''c'']) [''a'', ''b'', ''c''] 0"

definition ex_page_sample :: form where
  "ex_page_sample = [(''per_video'', Widget ''per_video'' ''int'' (SpinBox (QSpinBox 0 99 1)))]"

definition ex_page_strides :: form where
  "ex_page_strides = [(''stride'', Widget ''stride'' ''int'' (SpinBox (QSpinBox 0 99 2)))]"

definition ex_stack :: "int \<Rightarrow> widget" where
  "ex_stack i =
     Widget ''method'' ''stacked''
       (StackBuilderWidget [''sample'', ''strides'']
          [(''sample'', ex_page_sample), (''strides'', ex_page_strides)] i)"

definition ex_form :: "int \<Rightarrow> bool \<Rightarrow> string \<Rightarrow> int \<Rightarrow> form" where
  "ex_form n b t i =
     [(''batch'', Widget ''batch'' ''int'' (SpinBox (QSpinBox 0 99 n))),
      (''flip'', Widget ''flip'' ''bool'' (QCheckBox b)),
      (''title'', Widget ''title'' ''string'' (QLineEdit t)),
      (''method'', ex_stack i)]"

definition ex_button_form :: form where
  "ex_button_form =
     (''go'', Widget ''go'' ''button'' (QPushButton ''Go'')) # ex_form 4 False ''old'' 0"

section \<open>Properties of the track overlays\<close>

subsection \<open>Drawing\<close>

lemma foldl_draw_trail:
  "foldl (draw_trail color) sc trails = sc @ concat (map (trail_polygons color) trails)"
  by (induction trails arbitrary: sc) (simp_all add: draw_trail_def trail_polygons_def Let_def)

lemma draw_track_eq:
  "draw_track ov sel sc trk =
     sc @ concat (map (trail_polygons (get_track_color (tto_player ov) trk))
                    (get_track_trails (tto_labels ov) sel trk))"
  by (simp add: draw_track_def Let_def foldl_draw_trail)

lemma draw_track_append: "draw_track ov sel sc trk = sc @ draw_track ov sel [] trk"
  by (simp add: draw_track_eq)

lemma foldl_draw_track:
  "foldl (draw_track ov sel) sc trks = sc @ concat (map (draw_track ov sel []) trks)"
proof (induction trks arbitrary: sc)
  case Nil
  show ?case by simp
next
  case (Cons t ts)
  show ?case
    using Cons.IH [of "draw_track ov sel sc t"] draw_track_append [of ov sel sc t] by simp
qed

lemma scene_add_to_scene:
  "show_flag ov \<Longrightarrow>
   scene (tto_player (add_to_scene ov video fidx)) =
     scene (tto_player ov) @
     concat (map (draw_track ov (get_frame_selection ov video fidx) [])
               (get_tracks_in_frame ov video fidx True))"
  by (simp add: add_to_scene_def Let_def foldl_draw_track)

subsection \<open>The frame selection\<close>

lemma slice_from_zero: "slice_from 0 xs = xs"
  by (simp add: slice_from_def)

lemma slice_from_neg: "0 < l \<Longrightarrow> slice_from (- l) xs = drop (length xs - nat l) xs"
proof -
  assume l: "0 < l"
  have "nat (max 0 (int (length xs) - l)) = length xs - nat l"
    using l by (simp add: max_def nat_diff_distrib')
  then show ?thesis using l by (simp add: slice_from_def Let_def)
qed

text \<open>
  For a positive trail length the selection is the last \<open>trail_length\<close> frames (all
  of them if there are fewer) of the video's labeled frames with an index in
  \<open>[0, fidx]\<close>, sorted by frame index.
\<close>

lemma get_frame_selection_positive:
  assumes "0 < trail_length ov"
  shows "get_frame_selection ov video fidx =
     (let hist = sort_key frame_idx
                   (filter (\<lambda>lf. lf_video lf = video \<and> 0 \<le> frame_idx lf \<and> frame_idx lf \<le> fidx)
                      (labeled_frames (tto_labels ov)))
      in drop (length hist - nat (trail_length ov)) hist)"
proof -
  have "(\<lambda>lf. lf_video lf = video \<and> py_range 0 (fidx + 1) (frame_idx lf)) =
        (\<lambda>lf. lf_video lf = video \<and> 0 \<le> frame_idx lf \<and> frame_idx lf \<le> fidx)"
    by (auto simp add: py_range_def)
  then show ?thesis
    using assms by (simp add: get_frame_selection_def find_def slice_from_neg Let_def)
qed

text \<open>For the trail length 0 the slice \<open>[-0:]\<close> keeps every frame.\<close>

lemma get_frame_selection_zero:
  assumes "trail_length ov = 0"
  shows "get_frame_selection ov video fidx =
     sort_key frame_idx (find (tto_labels ov) video (py_range 0 (fidx + 1)))"
  using assms by (simp add: get_frame_selection_def slice_from_zero)

lemma sorted_top_suffix:
  "sorted (map f xs) \<Longrightarrow> \<forall>x\<in>set xs. f x \<le> (m::int) \<Longrightarrow>
   xs = filter (\<lambda>x. f x \<noteq> m) xs @ filter (\<lambda>x. f x = m) xs"
proof (induction xs)
  case Nil
  show ?case by simp
next
  case (Cons a xs)
  show ?case
  proof (cases "f a = m")
    case True
    have "\<forall>x\<in>set xs. f x = m"
    proof
      fix x assume "x \<in> set xs"
      then have "f a \<le> f x" "f x \<le> m" using Cons.prems by auto
      then show "f x = m" using True by simp
    qed
    then have "filter (\<lambda>x. f x \<noteq> m) xs = []" "filter (\<lambda>x. f x = m) xs = xs"
      by (simp_all add: filter_empty_conv filter_id_conv)
    then show ?thesis using True by simp
  next
    case False
    then show ?thesis using Cons by simp
  qed
qed

lemma top_in_drop:
  assumes "sorted (map f xs)" "\<forall>x\<in>set xs. f x \<le> (m::int)"
    and "length (filter (\<lambda>x. f x = m) xs) \<le> l"
  shows "set (filter (\<lambda>x. f x = m) xs) \<subseteq> set (drop (length xs - l) xs)"
proof -
  let ?A = "filter (\<lambda>x. f x \<noteq> m) xs" and ?B = "filter (\<lambda>x. f x = m) xs"
  have split: "xs = ?A @ ?B" using sorted_top_suffix [OF assms(1,2)] .
  have "length xs = length ?A + length ?B"
    using arg_cong [OF split, of length] by simp
  then have le: "length xs - l \<le> length ?A" using assms(3) by simp
  have "drop (length xs - l) xs = drop (length xs - l) (?A @ ?B)" using split by simp
  also have "\<dots> = drop (length xs - l) ?A @ ?B" using le by simp
  finally show ?thesis by simp
qed

text \<open>
  With a positive trail length that is at least the number of labeled frames the store
  holds for the current index, these frames are in the selection.
\<close>

lemma current_frame_in_selection:
  assumes "0 \<le> fidx" "0 < trail_length ov"
    and "length (find (tto_labels ov) video (\<lambda>i. i = fidx)) \<le> nat (trail_length ov)"
  shows "set (find (tto_labels ov) video (\<lambda>i. i = fidx)) \<subseteq> set (get_frame_selection ov video fidx)"
proof -
  let ?P = "\<lambda>lf. lf_video lf = video \<and> 0 \<le> frame_idx lf \<and> frame_idx lf \<le> fidx"
  let ?hist = "sort_key frame_idx (filter ?P (labeled_frames (tto_labels ov)))"
  have cur: "filter (\<lambda>lf. frame_idx lf = fidx) ?hist =
             sort_key frame_idx (find (tto_labels ov) video (\<lambda>i. i = fidx))"
  proof -
    have "filter (\<lambda>lf. frame_idx lf = fidx) (filter ?P (labeled_frames (tto_labels ov))) =
          filter (\<lambda>lf. lf_video lf = video \<and> frame_idx lf = fidx) (labeled_frames (tto_labels ov))"
      using assms(1) by (auto intro: filter_cong)
    then show ?thesis by (simp only: filter_sort find_def)
  qed
  have "set (filter (\<lambda>lf. frame_idx lf = fidx) ?hist)
          \<subseteq> set (drop (length ?hist - nat (trail_length ov)) ?hist)"
  proof (rule top_in_drop)
    show "sorted (map frame_idx ?hist)" by simp
    show "\<forall>x\<in>set ?hist. frame_idx x \<le> fidx" by simp
    show "length (filter (\<lambda>lf. frame_idx lf = fidx) ?hist) \<le> nat (trail_length ov)"
      using assms(3) by (simp add: cur)
  qed
  then show ?thesis
    using get_frame_selection_positive [OF assms(2), of video fidx] by (simp add: cur Let_def)
qed

lemma count_list_concat_map:
  "count_list (concat (map g xs)) t = sum_list (map (\<lambda>x. count_list (g x) t) xs)"
  by (induction xs) simp_all

subsection \<open>The trails\<close>

lemma node_step_length [simp]: "length (node_step inst ts p) = length ts"
  by (simp add: node_step_def Let_def split: option.splits)

lemma foldl_node_step_length [simp]:
  "length (foldl (node_step inst) ts ps) = length ts"
  by (induction ps arbitrary: ts) simp_all

lemma node_step_nth:
  "fst p < length ts \<Longrightarrow>
   node_step inst ts p ! i = (if i = fst p then landmark_sample inst (snd p) (ts ! i) else ts ! i)"
  by (auto simp add: node_step_def landmark_sample_def Let_def split: option.splits)

lemma foldl_node_step_nth:
  "k + length ns \<le> length ts \<Longrightarrow>
   foldl (node_step inst) ts (enumerate k ns) ! i =
     (if k \<le> i \<and> i < k + length ns then landmark_sample inst (ns ! (i - k)) (ts ! i) else ts ! i)"
proof (induction ns arbitrary: k ts)
  case Nil
  then show ?case by auto
next
  case (Cons n ns)
  have len: "Suc k + length ns \<le> length (node_step inst ts (k, n))"
    using Cons.prems by simp
  have kl: "k < length ts" using Cons.prems by simp
  show ?case
    using Cons.IH [OF len] kl
    by (auto simp add: node_step_nth nth_Cons')
qed

lemma find_filter_head:
  "List.find P xs = (case filter P xs of [] \<Rightarrow> None | x # _ \<Rightarrow> Some x)"
  by (induction xs) auto

lemma frame_step_length [simp]: "length (frame_step ls trk f ts) = length ts"
  by (simp add: frame_step_def Let_def split: list.splits)

lemma frame_step_nth:
  assumes "length ts = length (nodes ls)" "i < length (nodes ls)"
  shows "frame_step ls trk f ts ! i =
     (case first_on_track trk f of
        None \<Rightarrow> ts ! i
      | Some inst \<Rightarrow> landmark_sample inst (nodes ls ! i) (ts ! i))"
  using assms
  by (simp add: frame_step_def first_on_track_def find_filter_head foldl_node_step_nth
        split: list.splits)

lemma fold_frame_step_length [simp]:
  "length (fold (frame_step ls trk) fs ts) = length ts"
  by (induction fs arbitrary: ts) simp_all

lemma fold_frame_step_nth:
  "length ts = length (nodes ls) \<Longrightarrow> i < length (nodes ls) \<Longrightarrow>
   fold (frame_step ls trk) fs ts ! i = landmark_trail trk (nodes ls ! i) fs (ts ! i)"
proof (induction fs arbitrary: ts)
  case Nil
  then show ?case by simp
next
  case (Cons f fs)
  have "length (frame_step ls trk f ts) = length (nodes ls)" using Cons.prems by simp
  from Cons.IH [OF this Cons.prems(2)] show ?case
    using Cons.prems by (simp add: frame_step_nth)
qed

subsection \<open>The examples, evaluated\<close>

lemmas ex_defs = ex_track_def ex_inst_def ex_player_def ex_overlay_def ex_moving_def
  ex_occluded_def ex_absent_def ex_two_def

lemmas trail_eval_defs = get_frame_selection_def get_tracks_in_frame_def find_def
  py_range_def slice_from_def get_track_trails_def frame_step_def node_step_def Let_def

lemma ex_moving_selection: "get_frame_selection (ex_overlay ex_moving 4) 0 4 = ex_moving"
  by (simp add: ex_defs trail_eval_defs)

lemma ex_moving_tracks:
  "get_tracks_in_frame (ex_overlay ex_moving 4) 0 4 True = [ex_track, ex_track, ex_track, ex_track]"
  by (simp add: ex_defs trail_eval_defs)

lemma ex_moving_trails:
  "get_track_trails (tto_labels (ex_overlay ex_moving 4)) ex_moving ex_track
     = [[(1, 1), (2, 2), (3, 3), (4, 4)]]"
  by (simp add: ex_defs trail_eval_defs)

lemma ex_moving_draw_track:
  "draw_track (ex_overlay ex_moving 4) ex_moving [] ex_track =
     [Polygon [(1, 1), (2, 2)] (Pen (255, 0, 10) 1),
      Polygon [(3, 3), (4, 4)] (Pen (255, 0, 10) (1 / 2))]"
  by (simp add: draw_track_eq ex_moving_trails trail_polygons_def)
     (simp add: ex_overlay_def ex_player_def)

lemma ex_two_selection: "get_frame_selection (ex_overlay ex_two 10) 0 2 = ex_two"
  by (simp add: ex_defs trail_eval_defs)

lemma ex_two_tracks:
  "get_tracks_in_frame (ex_overlay ex_two 10) 0 2 True = [ex_track, ex_track]"
  by (simp add: ex_defs trail_eval_defs)

lemma ex_two_trails:
  "get_track_trails (tto_labels (ex_overlay ex_two 10)) ex_two ex_track = [[(1, 1), (2, 2)]]"
  by (simp add: ex_defs trail_eval_defs)

lemma ex_two_draw_track:
  "draw_track (ex_overlay ex_two 10) ex_two [] ex_track =
     [Polygon [(1, 1)] (Pen (255, 0, 10) 1), Polygon [(2, 2)] (Pen (255, 0, 10) (1 / 2))]"
  by (simp add: draw_track_eq ex_two_trails trail_polygons_def)
     (simp add: ex_overlay_def ex_player_def)

lemma ex_show_flag: "show_flag (ex_overlay lfs n)"
  by (simp add: ex_overlay_def)

lemma ex_scene_empty: "scene (tto_player (ex_overlay lfs n)) = []"
  by (simp add: ex_overlay_def ex_player_def)

subsection \<open>C1: the two halves of a trail\<close>

text \<open>
  C1, as the code has it. For every rendered trail, with half the floor of the trail
  length divided by two, the earlier half (the samples before index half) is issued to
  the scene first with alpha 1.0 and the later half (the samples from index half on) is
  issued second with alpha 0.5, both in the track's color from the color manager: the
  scene grows by these two polygons for every trail of every track of the loop, in the
  order of the loops.
\<close>

theorem add_to_scene_trail_halves:
  assumes "show_flag ov"
  shows "scene (tto_player (add_to_scene ov video fidx)) =
     scene (tto_player ov) @
     concat (map (\<lambda>trk.
         concat (map (\<lambda>trl.
             [Polygon (take (length trl div 2) trl) (Pen (get_track_color (tto_player ov) trk) 1),
              Polygon (drop (length trl div 2) trl)
                (Pen (get_track_color (tto_player ov) trk) (1 / 2))])
           (get_track_trails (tto_labels ov) (get_frame_selection ov video fidx) trk)))
       (get_tracks_in_frame ov video fidx True))"
proof -
  have "draw_track ov sel [] = (\<lambda>trk.
         concat (map (\<lambda>trl.
             [Polygon (take (length trl div 2) trl) (Pen (get_track_color (tto_player ov) trk) 1),
              Polygon (drop (length trl div 2) trl)
                (Pen (get_track_color (tto_player ov) trk) (1 / 2))])
           (get_track_trails (tto_labels ov) sel trk)))" for sel
    by (rule ext) (simp add: draw_track_eq trail_polygons_def [abs_def])
  then show ?thesis
    using scene_add_to_scene [OF assms, of video fidx] by simp
qed

text \<open>
  The witness is the trail of the specification's example: the first two polygons of the
  scene are the earlier half at alpha 1 and the later half at alpha 0.5.
\<close>

theorem add_to_scene_trail_halves_witness:
  "show_flag (ex_overlay ex_moving 4) \<and>
   take 2 (scene (tto_player (add_to_scene (ex_overlay ex_moving 4) 0 4))) =
     [Polygon [(1, 1), (2, 2)] (Pen (255, 0, 10) 1),
      Polygon [(3, 3), (4, 4)] (Pen (255, 0, 10) (1 / 2))]"
  using add_to_scene_trail_halves [OF ex_show_flag, of ex_moving 4 0 4]
  by (simp add: ex_show_flag ex_scene_empty ex_moving_selection ex_moving_tracks ex_moving_trails)
     (simp add: ex_overlay_def ex_player_def)

text \<open>
  C1 as stated fails: for the trail [(1,1),(2,2),(3,3),(4,4)] the first two polygons
  issued are not the later half at alpha 1.0 followed by the earlier half at alpha 0.5,
  but the earlier half at alpha 1.0 followed by the later half at alpha 0.5.
\<close>

theorem add_to_scene_later_half_first_counterexample:
  "take 2 (scene (tto_player (add_to_scene (ex_overlay ex_moving 4) 0 4)))
     \<noteq> spec_trail_polygons (255, 0, 10) [(1, 1), (2, 2), (3, 3), (4, 4)] \<and>
   take 2 (scene (tto_player (add_to_scene (ex_overlay ex_moving 4) 0 4)))
     = [Polygon [(1, 1), (2, 2)] (Pen (255, 0, 10) 1),
        Polygon [(3, 3), (4, 4)] (Pen (255, 0, 10) (1 / 2))]"
  by (simp add: scene_add_to_scene ex_show_flag ex_scene_empty ex_moving_selection
        ex_moving_tracks ex_moving_draw_track spec_trail_polygons_def)

subsection \<open>C2: carry-forward\<close>

text \<open>
  C2, as the code has it. \<open>get_track_trails\<close> returns one trail for every landmark of
  the store, and the trail of a landmark is built over the frames of the selection in
  their order: a frame in which the track has no instance adds nothing; in a frame in
  which it has one, the (x, y) of the landmark is appended if the first such instance
  has the landmark and it is visible, otherwise the last sample is appended again if
  the trail has one, and nothing is appended if it has none.
\<close>

theorem get_track_trails_carry_forward:
  "length (get_track_trails ls sel trk) = length (nodes ls) \<and>
   (\<forall>i < length (nodes ls).
      get_track_trails ls sel trk ! i = landmark_trail trk (nodes ls ! i) sel [])"
  by (simp add: get_track_trails_def fold_frame_step_nth)

text \<open>
  The witness is the specification's example: visible at (5,5) in frame 1, present but
  invisible in frames 2 and 3, visible at (9,9) in frame 4.
\<close>

theorem get_track_trails_carry_forward_witness:
  "(0::nat) < length (nodes (Labels ex_occluded [''nose''] [ex_track])) \<and>
   get_track_trails (Labels ex_occluded [''nose''] [ex_track]) ex_occluded ex_track ! 0 =
     [(5, 5), (5, 5), (5, 5), (9, 9)]"
  using get_track_trails_carry_forward [of "Labels ex_occluded [''nose''] [ex_track]" ex_occluded ex_track]
  by (simp add: ex_defs first_on_track_def landmark_sample_def)

text \<open>
  C2 as stated fails: when the track has no instance in a frame, the last sample is not
  carried forward. Visible at (5,5) in frame 1 and without an instance in frame 2, the
  trail is [(5,5)], where the specification's rule gives [(5,5), (5,5)].
\<close>

theorem get_track_trails_absent_counterexample:
  "get_track_trails (Labels ex_absent [''nose''] [ex_track]) ex_absent ex_track = [[(5, 5)]] \<and>
   spec_landmark_trail ex_track ''nose'' ex_absent [] = [(5, 5), (5, 5)]"
  by (simp add: ex_defs trail_eval_defs first_on_track_def landmark_sample_def)

subsection \<open>C3: the window for the trail length 0\<close>

text \<open>
  C3 at the failing input. With \<open>trail_length = 0\<close> the window of
  \<open>get_frame_selection\<close> is not empty: it is the whole history of the video up to the
  frame, here four frames, and \<open>add_to_scene\<close> draws trails.
\<close>

theorem get_frame_selection_zero_keeps_history:
  "get_frame_selection (ex_overlay ex_moving 0) 0 4 = ex_moving \<and>
   length (get_frame_selection (ex_overlay ex_moving 0) 0 4) = 4 \<and>
   scene (tto_player (add_to_scene (ex_overlay ex_moving 0) 0 4)) \<noteq> []"
proof -
  have sel: "get_frame_selection (ex_overlay ex_moving 0) 0 4 = ex_moving"
    by (simp add: ex_defs trail_eval_defs)
  have trk: "get_tracks_in_frame (ex_overlay ex_moving 0) 0 4 True
               = [ex_track, ex_track, ex_track, ex_track]"
    by (simp add: ex_defs trail_eval_defs)
  have trl: "get_track_trails (tto_labels (ex_overlay ex_moving 0)) ex_moving ex_track
               = [[(1, 1), (2, 2), (3, 3), (4, 4)]]"
    by (simp add: ex_defs trail_eval_defs)
  have "scene (tto_player (add_to_scene (ex_overlay ex_moving 0) 0 4)) \<noteq> []"
    by (simp add: scene_add_to_scene ex_show_flag sel trk draw_track_eq trl trail_polygons_def)
  then show ?thesis using sel by (simp add: ex_moving_def)
qed

subsection \<open>C7: the tracks that are drawn\<close>

text \<open>
  C7, as the code has it. The loop of \<open>add_to_scene\<close> runs over the tracks of the
  instances of the frames of the trail window, one round for every instance: the tracks
  drawn are exactly the tracks that have an instance in a frame of the window, and the
  trails of a track are rendered as many times as the track has instances in the
  frames of the window. The tracks of the current frame are among them when the trail
  length is positive and at least the number of labeled frames the store holds for the
  current index.
\<close>

theorem add_to_scene_tracks_drawn:
  assumes "show_flag ov"
  shows "scene (tto_player (add_to_scene ov video fidx)) =
       scene (tto_player ov) @
       concat (map (draw_track ov (get_frame_selection ov video fidx) [])
                 (get_tracks_in_frame ov video fidx True))
   \<and> set (get_tracks_in_frame ov video fidx True) =
       {trk. \<exists>lf inst. lf \<in> set (get_frame_selection ov video fidx) \<and>
               inst \<in> set (instances lf) \<and> inst_track inst = trk}
   \<and> (\<forall>trk. count_list (get_tracks_in_frame ov video fidx True) trk =
          sum_list (map (\<lambda>lf. length (filter (\<lambda>inst. inst_track inst = trk) (instances lf)))
                      (get_frame_selection ov video fidx)))
   \<and> (0 \<le> fidx \<and> 0 < trail_length ov \<and>
       length (find (tto_labels ov) video (\<lambda>i. i = fidx)) \<le> nat (trail_length ov)
       \<longrightarrow> set (get_tracks_in_frame ov video fidx False)
             \<subseteq> set (get_tracks_in_frame ov video fidx True))"
proof (intro conjI allI impI)
  show "scene (tto_player (add_to_scene ov video fidx)) =
       scene (tto_player ov) @
       concat (map (draw_track ov (get_frame_selection ov video fidx) [])
                 (get_tracks_in_frame ov video fidx True))"
    using assms by (rule scene_add_to_scene)
next
  show "set (get_tracks_in_frame ov video fidx True) =
       {trk. \<exists>lf inst. lf \<in> set (get_frame_selection ov video fidx) \<and>
               inst \<in> set (instances lf) \<and> inst_track inst = trk}"
    by (auto simp add: get_tracks_in_frame_def)
next
  fix trk
  have "count_list (map inst_track is) trk = length (filter (\<lambda>inst. inst_track inst = trk) is)"
    for "is" :: "sleap_instance list"
    by (induction "is") simp_all
  then show "count_list (get_tracks_in_frame ov video fidx True) trk =
          sum_list (map (\<lambda>lf. length (filter (\<lambda>inst. inst_track inst = trk) (instances lf)))
                      (get_frame_selection ov video fidx))"
    by (simp add: get_tracks_in_frame_def count_list_concat_map)
next
  assume h: "0 \<le> fidx \<and> 0 < trail_length ov \<and>
       length (find (tto_labels ov) video (\<lambda>i. i = fidx)) \<le> nat (trail_length ov)"
  then have "set (find (tto_labels ov) video (\<lambda>i. i = fidx))
               \<subseteq> set (get_frame_selection ov video fidx)"
    using current_frame_in_selection [of fidx ov video] by simp
  then show "set (get_tracks_in_frame ov video fidx False)
             \<subseteq> set (get_tracks_in_frame ov video fidx True)"
    by (auto simp add: get_tracks_in_frame_def)
qed

text \<open>
  The witness: a track with an instance in each of the two frames of the window is in
  the loop twice, and its trail is rendered twice.
\<close>

theorem add_to_scene_tracks_drawn_witness:
  "show_flag (ex_overlay ex_two 10) \<and>
   count_list (get_tracks_in_frame (ex_overlay ex_two 10) 0 2 True) ex_track = 2 \<and>
   length (scene (tto_player (add_to_scene (ex_overlay ex_two 10) 0 2))) = 4"
proof -
  note drawn = add_to_scene_tracks_drawn [OF ex_show_flag, of ex_two 10 0 2]
  have "count_list (get_tracks_in_frame (ex_overlay ex_two 10) 0 2 True) ex_track =
          sum_list (map (\<lambda>lf. length (filter (\<lambda>inst. inst_track inst = ex_track) (instances lf)))
                      (get_frame_selection (ex_overlay ex_two 10) 0 2))"
    using drawn by blast
  then have cnt: "count_list (get_tracks_in_frame (ex_overlay ex_two 10) 0 2 True) ex_track = 2"
    by (simp add: ex_two_selection) (simp add: ex_two_def ex_inst_def)
  have "scene (tto_player (add_to_scene (ex_overlay ex_two 10) 0 2)) =
       scene (tto_player (ex_overlay ex_two 10)) @
       concat (map (draw_track (ex_overlay ex_two 10) (get_frame_selection (ex_overlay ex_two 10) 0 2) [])
                 (get_tracks_in_frame (ex_overlay ex_two 10) 0 2 True))"
    using drawn by blast
  then have len: "length (scene (tto_player (add_to_scene (ex_overlay ex_two 10) 0 2))) = 4"
    by (simp add: ex_scene_empty ex_two_selection ex_two_tracks ex_two_draw_track)
  show ?thesis using cnt len by (simp add: ex_show_flag)
qed

text \<open>
  C7 as stated fails: a track present in two frames of the window is not drawn once.
  Its polygons are in the scene twice.
\<close>

theorem add_to_scene_track_drawn_twice_counterexample:
  "get_tracks_in_frame (ex_overlay ex_two 10) 0 2 True = [ex_track, ex_track] \<and>
   scene (tto_player (add_to_scene (ex_overlay ex_two 10) 0 2)) =
     [Polygon [(1, 1)] (Pen (255, 0, 10) 1), Polygon [(2, 2)] (Pen (255, 0, 10) (1 / 2)),
      Polygon [(1, 1)] (Pen (255, 0, 10) 1), Polygon [(2, 2)] (Pen (255, 0, 10) (1 / 2))]"
  by (simp add: scene_add_to_scene ex_show_flag ex_scene_empty ex_two_selection ex_two_tracks
        ex_two_draw_track)

subsection \<open>C9: the track list\<close>

lemma track_label_nonempty: "track_label pl idx trk \<noteq> []"
  by (simp add: track_label_def)

lemma track_list_step_label:
  "track_list_step pl html p =
     (if html \<noteq> [] then html @ ''<br />'' else []) @ track_label pl (int (fst p) + 1) (snd p)"
  by (simp add: track_list_step_def track_label_def html_color_of_def Let_def)

lemma join_Cons: "join sep (s # ss) = (if ss = [] then s else s @ sep @ join sep ss)"
  by (cases ss) simp_all

lemma enumerate_Nil_iff: "enumerate k ts = [] \<longleftrightarrow> ts = []"
  by (cases ts) simp_all

lemma foldl_track_list_step:
  "foldl (track_list_step pl) html (enumerate k ts) =
     (if ts = [] then html
      else (if html \<noteq> [] then html @ ''<br />'' else []) @
           join ''<br />'' (map (\<lambda>p. track_label pl (int (fst p) + 1) (snd p)) (enumerate k ts)))"
proof (induction ts arbitrary: html k)
  case Nil
  show ?case by simp
next
  case (Cons t ts)
  have ne: "track_list_step pl html (k, t) \<noteq> []"
    by (simp add: track_list_step_label track_label_nonempty)
  show ?case
    using ne by (simp add: Cons.IH join_Cons enumerate_Nil_iff) (simp add: track_list_step_label)
qed

lemma track_list_html_join: "track_list_html ov = join ''<br />'' (shown_labels ov)"
proof -
  have "take (min 9 (length (tracks (tlo_labels ov)))) (tracks (tlo_labels ov))
          = take 9 (tracks (tlo_labels ov))"
    by (simp add: min_def)
  then have "track_list_html ov =
      foldl (track_list_step (tlo_player ov)) [] (enumerate 0 (take 9 (tracks (tlo_labels ov))))"
    by (simp only: track_list_html_def Let_def)
  then show ?thesis
    by (simp add: shown_labels_def foldl_track_list_step del: take_eq_Nil)
qed

text \<open>
  C9. \<open>TrackListOverlay.add_to_scene\<close> adds one item to the player's scene, after the
  items the scene has: the text box, which also becomes the overlay's, hidden, white
  and of opacity 0.7. Its text holds the labels of the first min(9, number of tracks)
  tracks of the store, in the store's order, joined by line breaks; the label at
  position i (from 0) is the label of the i-th track with the index i + 1, and a label
  has the suffix " (index)" exactly when the track's name is not the index written as
  a string.
\<close>

theorem track_list_overlay_first_nine:
  "scene (tlo_player (track_list_add_to_scene ov video fidx)) =
     scene (tlo_player ov) @
     [TextItem (QtTextWithBackground (join ''<br />'' (shown_labels ov)) ''white'' (7 / 10) False)]
   \<and> text_box (track_list_add_to_scene ov video fidx) =
     Some (QtTextWithBackground (join ''<br />'' (shown_labels ov)) ''white'' (7 / 10) False)
   \<and> length (shown_labels ov) = min 9 (length (tracks (tlo_labels ov)))
   \<and> (\<forall>i < length (shown_labels ov).
        shown_labels ov ! i =
          ''<span style='' @ [CHR 0x27] @ ''color:''
            @ html_color_of (get_track_color (tlo_player ov) (tracks (tlo_labels ov) ! i))
            @ [CHR 0x27] @ ''>'' @ ''<b>'' @ name (tracks (tlo_labels ov) ! i) @ ''</b>''
            @ (if name (tracks (tlo_labels ov) ! i) = str_int (int i + 1) then []
               else '' ('' @ str_int (int i + 1) @ '')'')
            @ ''</span>'')"
  by (simp add: track_list_add_to_scene_def track_list_html_join Let_def)
     (simp add: shown_labels_def nth_enumerate_eq track_label_def)

text \<open>
  The witness: of eleven tracks nine are shown, in one text item added to the empty
  scene; the first, named "1", has no suffix and the second, named "b", has the
  suffix " (2)".
\<close>

theorem track_list_overlay_first_nine_witness:
  "scene (tlo_player (track_list_add_to_scene ex_list_overlay 0 0)) =
     [TextItem (QtTextWithBackground (join ''<br />'' (shown_labels ex_list_overlay))
        ''white'' (7 / 10) False)] \<and>
   length (shown_labels ex_list_overlay) = 9 \<and>
   (1::nat) < length (shown_labels ex_list_overlay) \<and>
   shown_labels ex_list_overlay ! 0 =
     ''<span style='' @ [CHR 0x27] @ ''color:#FF000A'' @ [CHR 0x27] @ ''><b>1</b></span>'' \<and>
   shown_labels ex_list_overlay ! 1 =
     ''<span style='' @ [CHR 0x27] @ ''color:#FF000A'' @ [CHR 0x27] @ ''><b>b</b> (2)</span>''"
proof -
  note t = track_list_overlay_first_nine [of ex_list_overlay 0 0]
  have sc: "scene (tlo_player (track_list_add_to_scene ex_list_overlay 0 0)) =
     [TextItem (QtTextWithBackground (join ''<br />'' (shown_labels ex_list_overlay))
        ''white'' (7 / 10) False)]"
    using t [THEN conjunct1] by (simp add: ex_list_overlay_def ex_player_def)
  have len: "length (shown_labels ex_list_overlay) = 9"
    using t [THEN conjunct2, THEN conjunct2, THEN conjunct1]
    by (simp add: ex_list_overlay_def ex_tracks_def)
  note nth = t [THEN conjunct2, THEN conjunct2, THEN conjunct2, rule_format]
  have p0: "0 < length (shown_labels ex_list_overlay)"
    and p1: "1 < length (shown_labels ex_list_overlay)"
    using len by simp_all
  have l0: "shown_labels ex_list_overlay ! 0 =
     ''<span style='' @ [CHR 0x27] @ ''color:#FF000A'' @ [CHR 0x27] @ ''><b>1</b></span>''"
    using nth [OF p0]
    by (simp add: ex_list_overlay_def ex_tracks_def ex_player_def html_color_of_def
          format_02X_def str_int_def)
  have l1: "shown_labels ex_list_overlay ! 1 =
     ''<span style='' @ [CHR 0x27] @ ''color:#FF000A'' @ [CHR 0x27] @ ''><b>b</b> (2)</span>''"
    using nth [OF p1]
    by (simp add: ex_list_overlay_def ex_tracks_def ex_player_def html_color_of_def
          format_02X_def str_int_def)
  show ?thesis using sc len l0 l1 by simp
qed

section \<open>Properties of the form builder\<close>

subsection \<open>The optional spin widget and the combo box\<close>

lemma optional_none_roundtrip:
  "optional_setValue w PNone = Inr (OptionalSpinWidget (none_string w) (spin_widget w) True) \<and>
   optional_value (OptionalSpinWidget (none_string w) (spin_widget w) True) = PNone"
  by (simp add: optional_setValue_def isNoneVal_def optional_value_def)

lemma optional_int_roundtrip:
  assumes "spin_widget w = QSpinBox lo hi v" "lo \<le> n" "n \<le> hi" "in_c_int n"
  shows "optional_setValue w (PInt n) = Inr (OptionalSpinWidget (none_string w) (QSpinBox lo hi n) False) \<and>
   optional_value (OptionalSpinWidget (none_string w) (QSpinBox lo hi n) False) = PInt n"
  using assms by (simp add: optional_setValue_def isNoneVal_def optional_value_def)

lemma fold_add_option_items:
  "combo_items (fold add_option opts c) =
     combo_items c @ map (\<lambda>item. if item = ''---'' then [] else item) opts"
  by (induction opts arbitrary: c) (simp_all add: add_option_def addItem_def)

lemma fold_add_option_attrs:
  "result_as_idx (fold add_option opts c) = result_as_idx c \<and>
   add_blank_option (fold add_option opts c) = add_blank_option c \<and>
   options_list (fold add_option opts c) = options_list c"
  by (induction opts arbitrary: c) (simp_all add: add_option_def addItem_def)

lemma set_options_None:
  "set_options bi c opts None = Inr c' \<Longrightarrow>
   result_as_idx c' = result_as_idx c \<and> add_blank_option c' = add_blank_option c \<and>
   options_list c' = Some opts \<and>
   combo_items c' = (if add_blank_option c then [[]] else [])
                      @ map (\<lambda>item. if item = ''---'' then [] else item) opts"
  by (auto simp add: set_options_def Let_def fold_add_option_items fold_add_option_attrs addItem_def)

lemma combo_setValue_index:
  assumes "result_as_idx c" "options_list c = Some opts"
  shows "combo_setValue bi c (PInt v) =
     (if v \<le> int (length opts)
      then (if - int (length opts) \<le> v \<and> v < int (length opts)
            then Inr (setCurrentText (opts ! nat (if v < 0 then int (length opts) + v else v)) c)
            else Inl IndexError)
      else Inr (setCurrentText (str_int v) c))"
  using assms by (auto simp add: combo_setValue_def py_index_def Let_def)

subsection \<open>Finding text in a combo box, and the round trip of one widget\<close>

lemma findText_from_ge: "findText_from xs t i = - 1 \<or> i \<le> findText_from xs t i"
  by (induction xs arbitrary: i) (auto, force)












subsection \<open>The fields found by name\<close>

lemma collect_map_Inr:
  "(\<And>x. x \<in> set xs \<Longrightarrow> f x = Inr (g x)) \<Longrightarrow> collect (map f xs) = Inr (map g xs)"
  by (induction xs) simp_all

lemma find_field_active:
  "pages_ok fs \<Longrightarrow>
   find_field fs field_name =
     Inr (filter (\<lambda>w. objectName w = field_name \<and> \<not> is_button w) (active_widgets fs))"
proof (induction fs field_name rule: find_field.induct)
  case (1 fs field_name)
  let ?P = "\<lambda>w. objectName w = field_name \<and> \<not> is_button w"
  let ?stacks = "filter is_stack (map snd fs)"
  let ?page = "\<lambda>stack. map_of (page_layouts (control stack)) (stack_value (control stack))"
  have each: "(case ?page w of None \<Rightarrow> Inl KeyError | Some page \<Rightarrow> find_field page field_name) =
              Inr (filter ?P (case ?page w of None \<Rightarrow> [] | Some page \<Rightarrow> active_widgets page))"
    if w: "w \<in> set ?stacks" for w
  proof (cases "?page w")
    case None
    then show ?thesis
      using "1.prems" w by (subst (asm) pages_ok.simps) (auto simp add: list_all_iff)
  next
    case (Some page)
    have "pages_ok page"
      using "1.prems" w Some by (subst (asm) pages_ok.simps) (auto simp add: list_all_iff)
    then show ?thesis
      using "1.IH" [OF refl refl refl w Some] Some by simp
  qed
  have "collect (map (\<lambda>w. case ?page w of None \<Rightarrow> Inl KeyError
                           | Some page \<Rightarrow> find_field page field_name) ?stacks) =
        Inr (map (\<lambda>w. filter ?P (case ?page w of None \<Rightarrow> [] | Some page \<Rightarrow> active_widgets page))
               ?stacks)"
    by (rule collect_map_Inr) (rule each)
  then show ?case
    by (subst find_field.simps, subst active_widgets.simps)
       (simp add: Let_def filter_concat comp_def)
qed

subsection \<open>The keys of the data of a form\<close>

lemma collect_Inr:
  "collect rs = Inr vs \<Longrightarrow> list_all2 (\<lambda>r v. r = Inr v) rs vs"
  by (induction rs arbitrary: vs) (auto split: sum.splits)











subsection \<open>Setting the data of a form\<close>













text \<open>A text longer than the text field's \<open>maxLength\<close> is not kept whole.\<close>

lemma setText_long:
  "CHR 0x00 \<notin> set s \<Longrightarrow> 32767 < length s \<Longrightarrow>
   setText s = Inr (take 32767 s) \<and> take 32767 s \<noteq> s"
proof -
  assume nul: "CHR 0x00 \<notin> set s" and len: "32767 < length s"
  have "length (take 32767 s) = 32767" using len by simp
  then have "take 32767 s \<noteq> s" using len by (metis less_irrefl)
  then show ?thesis using nul by (simp add: setText_def)
qed

subsection \<open>C4: the value of a list field in optional index mode\<close>

text \<open>
  The entries of a list field in optional index mode (\<open>result_as_idx\<close> and
  \<open>add_blank_option\<close> both true) whose options have been set: the first entry is the
  blank one and reads as -1; the entry after it at position k + 1 is the option of
  index k, and reads as the index k, not as its text.
\<close>

lemma optional_index_entries:
  assumes "result_as_idx c" "add_blank_option c" "set_options bi c opts None = Inr c'"
  shows "combo_items c' ! 0 = [] \<and>
     get_widget_value bi (Widget n ''list'' (FieldCombo (setCurrentIndex 0 c'))) = Inr (PInt (- 1)) \<and>
     (\<forall>k < length opts.
        combo_items c' ! Suc k = (if opts ! k = ''---'' then [] else opts ! k) \<and>
        get_widget_value bi (Widget n ''list'' (FieldCombo (setCurrentIndex (int k + 1) c')))
          = Inr (PInt (int k)))"
proof -
  note c' = set_options_None [OF assms(3)]
  have items: "combo_items c' = [] # map (\<lambda>item. if item = ''---'' then [] else item) opts"
    using c' assms(2) by simp
  have mode: "result_as_idx c'" "add_blank_option c'" using c' assms(1,2) by simp_all
  have val: "get_widget_value bi (Widget n ''list'' (FieldCombo (setCurrentIndex i c')))
               = Inr (PInt (i - 1))"
    if "0 \<le> i" "i < int (length (combo_items c'))" for i
    using that mode by (simp add: get_widget_value_def combo_value_def setCurrentIndex_def)
  show ?thesis
  proof (intro conjI allI impI)
    show "combo_items c' ! 0 = []" using items by simp
    show "get_widget_value bi (Widget n ''list'' (FieldCombo (setCurrentIndex 0 c')))
            = Inr (PInt (- 1))"
      using val [of 0] items by simp
  next
    fix k assume k: "k < length opts"
    show "combo_items c' ! Suc k = (if opts ! k = ''---'' then [] else opts ! k)"
      using items k by simp
    show "get_widget_value bi (Widget n ''list'' (FieldCombo (setCurrentIndex (int k + 1) c')))
            = Inr (PInt (int k))"
      using val [of "int k + 1"] items k by simp
  qed
qed

text \<open>
  C4 at the failing input. The list field that \<open>build_form\<close> makes in optional index
  mode for the options a and b, without a default, has its blank first entry selected.
  Reading it yields the integer -1: not \<open>None\<close>, and not the \<open>""\<close> that the docstring
  of the class gives for the blank option. The -1 is not a value that stands for the
  blank entry either: written back with \<open>setValue\<close> it selects the last option, and
  the field then reads as the index 1.
\<close>

theorem optional_index_blank_reads_minus_one:
  "build_list_field ex_builtins ''optional_index'' ''a,b'' None
     = Inr (FieldComboWidget True True (Some [''a'', ''b'']) ['''', ''a'', ''b''] 0) \<and>
   currentText ['''', ''a'', ''b''] 0 = '''' \<and>
   get_widget_value ex_builtins (Widget ''node'' ''list''
       (FieldCombo (FieldComboWidget True True (Some [''a'', ''b'']) ['''', ''a'', ''b''] 0)))
     = Inr (PInt (- 1)) \<and>
   Inr (PInt (- 1)) \<noteq> (Inr PNone :: error + pyval) \<and>
   Inr (PInt (- 1)) \<noteq> (Inr (PStr '''') :: error + pyval) \<and>
   set_widget_value ex_builtins (Widget ''node'' ''list''
       (FieldCombo (FieldComboWidget True True (Some [''a'', ''b'']) ['''', ''a'', ''b''] 0)))
       (PInt (- 1))
     = Inr (Widget ''node'' ''list''
         (FieldCombo (FieldComboWidget True True (Some [''a'', ''b'']) ['''', ''a'', ''b''] 2))) \<and>
   get_widget_value ex_builtins (Widget ''node'' ''list''
       (FieldCombo (FieldComboWidget True True (Some [''a'', ''b'']) ['''', ''a'', ''b''] 2)))
     = Inr (PInt 1)"
  by (simp add: build_list_field_def new_FieldComboWidget_def set_options_def add_option_def
        addItem_def combo_setValue_def setCurrentText_def findText_def Let_def
        get_widget_value_def combo_value_def currentText_def set_widget_value_def
        py_index_def)

subsection \<open>C5: the optional spin widget of the type optional_double\<close>

text \<open>
  Had \<open>__init__\<close> been given the object of the literal, the spin box of the type
  \<open>double\<close> would be a \<open>QDoubleSpinBox\<close>; \<open>build_form\<close> gives it a part of a split
  string, and the spin box is a \<open>QSpinBox\<close>.
\<close>

lemma OptionalSpinWidget_init_double:
  "spin_widget (OptionalSpinWidget_init (Literal ''double'') ns) = new_QDoubleSpinBox \<and>
   spin_widget (OptionalSpinWidget_init (Built ''double'') ns) = new_QSpinBox"
  by (simp add: OptionalSpinWidget_init_def)

text \<open>
  C5 at the failing input. The widget that \<open>build_form\<close> makes for the type
  \<open>optional_double\<close> holds a \<open>QSpinBox\<close>; after \<open>setValue(2.5)\<close> its \<open>value()\<close> is the
  integer 2 and not 2.5.
\<close>

theorem optional_double_fraction_lost:
  "build_optional_spin ''optional_double'' PNone
     = Inr (OptionalSpinWidget ''none'' (QSpinBox 0 99 0) True) \<and>
   optional_setValue (OptionalSpinWidget ''none'' (QSpinBox 0 99 0) True) (PFloat (5 / 2))
     = Inr (OptionalSpinWidget ''none'' (QSpinBox 0 99 2) False) \<and>
   optional_value (OptionalSpinWidget ''none'' (QSpinBox 0 99 2) False) = PInt 2 \<and>
   optional_value (OptionalSpinWidget ''none'' (QSpinBox 0 99 2) False) \<noteq> PFloat (5 / 2)"
  by (simp add: build_optional_spin_def OptionalSpinWidget_init_def optional_setValue_def
        isNoneVal_def new_QSpinBox_def optional_value_def trunc_def in_c_int_def Let_def)

subsection \<open>C6: the round trip of a form\<close>









subsection \<open>C8: find_field and the selected page\<close>

text \<open>
  C8, as the code has it. For a form whose stacked widgets each have a page for the
  current option, \<open>find_field(name)\<close> returns the widgets of the form itself that
  have that name and are not push buttons (or labels) followed, for each stacked
  widget, by such matches among the widgets reached through its currently selected
  page, recursively; altogether the matches among the widgets reached through the
  selected pages. For a name that no such widget has, as a name that exists only on a
  page that is not selected, it returns no match.
\<close>

theorem find_field_selected_pages:
  assumes "pages_ok fs"
  shows "find_field fs field_name =
       Inr (filter (\<lambda>w. objectName w = field_name \<and> \<not> is_button w) (map snd fs) @
            concat (map (\<lambda>stack.
                case map_of (page_layouts (control stack)) (stack_value (control stack)) of
                  None \<Rightarrow> []
                | Some page \<Rightarrow>
                    filter (\<lambda>w. objectName w = field_name \<and> \<not> is_button w) (active_widgets page))
              (filter is_stack (map snd fs))))
   \<and> find_field fs field_name =
       Inr (filter (\<lambda>w. objectName w = field_name \<and> \<not> is_button w) (active_widgets fs))
   \<and> (field_name \<notin> objectName ` set (active_widgets fs) \<longrightarrow> find_field fs field_name = Inr [])"
proof -
  let ?P = "\<lambda>w. objectName w = field_name \<and> \<not> is_button w"
  have all: "find_field fs field_name = Inr (filter ?P (active_widgets fs))"
    using assms by (rule find_field_active)
  have "(\<lambda>stack. filter ?P
            (case map_of (page_layouts (control stack)) (stack_value (control stack)) of
               None \<Rightarrow> [] | Some page \<Rightarrow> active_widgets page)) =
        (\<lambda>stack. case map_of (page_layouts (control stack)) (stack_value (control stack)) of
               None \<Rightarrow> [] | Some page \<Rightarrow> filter ?P (active_widgets page))"
    by (rule ext) (simp split: option.splits)
  then have "filter ?P (active_widgets fs) =
       filter ?P (map snd fs) @
       concat (map (\<lambda>stack.
           case map_of (page_layouts (control stack)) (stack_value (control stack)) of
             None \<Rightarrow> [] | Some page \<Rightarrow> filter ?P (active_widgets page))
         (filter is_stack (map snd fs)))"
    by (subst active_widgets.simps) (simp add: Let_def filter_concat comp_def)
  moreover have "filter ?P (active_widgets fs) = []"
    if "field_name \<notin> objectName ` set (active_widgets fs)"
    using that by (auto simp add: filter_empty_conv)
  ultimately show ?thesis using all by simp
qed

text \<open>
  The witness: with the page sample selected, its field is found and the field of the
  page strides is not; with the page strides selected it is the other way round.
\<close>

theorem find_field_selected_pages_witness:
  "pages_ok (ex_form 4 False ''old'' 0) \<and>
   find_field (ex_form 4 False ''old'' 0) ''per_video''
     = Inr [Widget ''per_video'' ''int'' (SpinBox (QSpinBox 0 99 1))] \<and>
   ''stride'' \<notin> objectName ` set (active_widgets (ex_form 4 False ''old'' 0)) \<and>
   find_field (ex_form 4 False ''old'' 0) ''stride'' = Inr [] \<and>
   pages_ok (ex_form 4 False ''old'' 1) \<and>
   find_field (ex_form 4 False ''old'' 1) ''stride''
     = Inr [Widget ''stride'' ''int'' (SpinBox (QSpinBox 0 99 2))]"
proof -
  have ok: "pages_ok (ex_form 4 False ''old'' i)" if "i = 0 \<or> i = 1" for i
    using that
    by (auto simp add: pages_ok.simps ex_form_def ex_stack_def ex_page_sample_def
          ex_page_strides_def stack_value_def currentText_def)
  have act: "active_widgets (ex_form 4 False ''old'' i) =
      map snd (ex_form 4 False ''old'' i) @ map snd (if i = 0 then ex_page_sample else ex_page_strides)"
    if "i = 0 \<or> i = 1" for i
    using that
    by (auto simp add: active_widgets.simps ex_form_def ex_stack_def ex_page_sample_def
          ex_page_strides_def stack_value_def currentText_def)
  note t0 = find_field_selected_pages [OF ok [of 0], THEN conjunct2]
  note t1 = find_field_selected_pages [OF ok [of 1], THEN conjunct2]
  have a: "find_field (ex_form 4 False ''old'' 0) ''per_video''
     = Inr [Widget ''per_video'' ''int'' (SpinBox (QSpinBox 0 99 1))]"
    using t0 [of "''per_video''"]
    by (simp add: act) (simp add: ex_form_def ex_stack_def ex_page_sample_def)
  have b: "''stride'' \<notin> objectName ` set (active_widgets (ex_form 4 False ''old'' 0))"
    by (simp add: act) (simp add: ex_form_def ex_stack_def ex_page_sample_def)
  have c: "find_field (ex_form 4 False ''old'' 0) ''stride'' = Inr []"
    using t0 [of "''stride''", THEN conjunct2] b by blast
  have d: "find_field (ex_form 4 False ''old'' 1) ''stride''
     = Inr [Widget ''stride'' ''int'' (SpinBox (QSpinBox 0 99 2))]"
    using t1 [of "''stride''"]
    by (simp add: act) (simp add: ex_form_def ex_stack_def ex_page_strides_def)
  show ?thesis using ok [of 0] ok [of 1] a b c d by simp
qed

text \<open>
  C8 as stated fails: a push button is one of the form's own fields, and
  \<open>find_field\<close> does not return it for its name. The form has a stacked field and the
  button go under the key go of \<open>fields\<close>.
\<close>

theorem find_field_button_counterexample:
  "map_of ex_button_form ''go'' = Some (Widget ''go'' ''button'' (QPushButton ''Go'')) \<and>
   objectName (Widget ''go'' ''button'' (QPushButton ''Go'')) = ''go'' \<and>
   filter is_stack (map snd ex_button_form) = [ex_stack 0] \<and>
   find_field ex_button_form ''go'' = Inr []"
  by (simp add: find_field.simps ex_button_form_def ex_form_def ex_stack_def
        ex_page_sample_def ex_page_strides_def stack_value_def currentText_def)

subsection \<open>C10: the bound of the index in FieldComboWidget.setValue\<close>

text \<open>
  C10, as the code has it. For a combo box in index mode with n options, \<open>setValue\<close>
  with an integer v from -n up to n - 1 performs a lookup within bounds (a negative v
  selects from the end of the list), while v = n, which the guard \<open>val <= len\<close> lets
  through, and every v below -n reach an index out of bounds; this IndexError comes
  out of \<open>set_widget_value\<close> and \<open>set_form_data\<close>.
\<close>

theorem combo_setValue_index_bounds:
  assumes "result_as_idx c" "options_list c = Some opts"
  shows "(- int (length opts) \<le> v \<and> v < int (length opts) \<longrightarrow>
            combo_setValue bi c (PInt v) =
              Inr (setCurrentText (opts ! nat (if v < 0 then int (length opts) + v else v)) c))
   \<and> (v = int (length opts) \<or> v < - int (length opts) \<longrightarrow>
            combo_setValue bi c (PInt v) = Inl IndexError \<and>
            set_widget_value bi (Widget n t (FieldCombo c)) (PInt v) = Inl IndexError \<and>
            set_form_data bi [(n, Widget n t (FieldCombo c))] [(n, PInt v)] = Inl IndexError)"
proof (intro conjI impI)
  assume "- int (length opts) \<le> v \<and> v < int (length opts)"
  then show "combo_setValue bi c (PInt v) =
      Inr (setCurrentText (opts ! nat (if v < 0 then int (length opts) + v else v)) c)"
    using combo_setValue_index [OF assms, of bi v] by simp
next
  assume "v = int (length opts) \<or> v < - int (length opts)"
  then have e: "combo_setValue bi c (PInt v) = Inl IndexError"
    using combo_setValue_index [OF assms, of bi v] by auto
  then show "combo_setValue bi c (PInt v) = Inl IndexError" .
  from e show "set_widget_value bi (Widget n t (FieldCombo c)) (PInt v) = Inl IndexError"
    by (simp add: set_widget_value_def)
  from e show "set_form_data bi [(n, Widget n t (FieldCombo c))] [(n, PInt v)] = Inl IndexError"
    by (simp add: set_widget_value_def)
qed

text \<open>
  The witness: with three options, 2 and -1 both select the last option and 3 raises
  IndexError, also through \<open>set_form_data\<close>.
\<close>

theorem combo_setValue_index_bounds_witness:
  "result_as_idx ex_combo \<and> options_list ex_combo = Some [''a'', ''b'', ''c''] \<and>
   combo_setValue ex_builtins ex_combo (PInt 2) = Inr (setCurrentText ''c'' ex_combo) \<and>
   combo_setValue ex_builtins ex_combo (PInt (- 1)) = Inr (setCurrentText ''c'' ex_combo) \<and>
   combo_setValue ex_builtins ex_combo (PInt 3) = Inl IndexError \<and>
   set_form_data ex_builtins [(''node'', Widget ''node'' ''list'' (FieldCombo ex_combo))]
     [(''node'', PInt 3)] = Inl IndexError"
proof -
  have 1: "result_as_idx ex_combo" and 2: "options_list ex_combo = Some [''a'', ''b'', ''c'']"
    by (simp_all add: ex_combo_def)
  note t = combo_setValue_index_bounds [OF 1 2, of _ ex_builtins "''node''" "''list''"]
  show ?thesis using t [of 2] t [of "- 1"] t [of 3] 1 2 by simp
qed

text \<open>
  C10 as stated fails: an integer strictly less than the number of options need not
  give a lookup within bounds. With three options, -4 passes the guard and raises
  IndexError.
\<close>

theorem combo_setValue_below_range_counterexample:
  "result_as_idx ex_combo \<and> options_list ex_combo = Some [''a'', ''b'', ''c''] \<and>
   (- 4 :: int) < int (length [''a'', ''b'', ''c'']) \<and>
   combo_setValue ex_builtins ex_combo (PInt (- 4)) = Inl IndexError"
  by (simp add: ex_combo_def combo_setValue_def py_index_def)

end
